theory Spec2Isabelle
  imports Main "HOL-Library.Word" "HOL-Library.AList"
begin

section \<open>Strings of the host language\<close>

text \<open>
  A JavaScript string is a sequence of 16-bit code units. Indices, \<open>slice\<close>,
  \<open>split\<close>, \<open>trim\<close> and \<open>lastIndexOf\<close> all count code units, so a string is a
  list of 16-bit words. \<open>js\<close> embeds an ASCII literal.
\<close>

type_synonym jschar = "16 word"
type_synonym jsstring = "jschar list"

definition js :: "string \<Rightarrow> jsstring" where
  "js s = map of_char s"

text \<open>
  The code units that the regular expression class \<open>\s\<close> matches and that
  \<open>String.prototype.trim\<close> strips: the WhiteSpace and LineTerminator code points
  of ECMAScript, all of which are single code units.
\<close>

definition is_ws :: "jschar \<Rightarrow> bool" where
  "is_ws c \<longleftrightarrow>
     c = 0x9 \<or> c = 0xA \<or> c = 0xB \<or> c = 0xC \<or> c = 0xD \<or> c = 0x20 \<or> c = 0xA0 \<or>
     c = 0x1680 \<or> (0x2000 \<le> c \<and> c \<le> 0x200A) \<or> c = 0x2028 \<or> c = 0x2029 \<or>
     c = 0x202F \<or> c = 0x205F \<or> c = 0x3000 \<or> c = 0xFEFF"

definition not_ws :: "jschar \<Rightarrow> bool" where
  "not_ws c \<longleftrightarrow> \<not> is_ws c"

definition newline :: jschar where
  "newline = 0xA"

text \<open>
  \<open>s.slice(a, b)\<close> for bounds that are a number that is not negative or
  \<open>undefined\<close> (\<open>None\<close>): an undefined start is 0, an undefined or missing end
  is the length of \<open>s\<close>, and an end before the start gives the empty string.
\<close>

definition slice :: "nat option \<Rightarrow> nat option \<Rightarrow> jsstring \<Rightarrow> jsstring" where
  "slice a b s =
     (let lo = (case a of None \<Rightarrow> 0 | Some i \<Rightarrow> i);
          hi = (case b of None \<Rightarrow> length s | Some e \<Rightarrow> e)
      in take (hi - lo) (drop lo s))"

definition trim :: "jsstring \<Rightarrow> jsstring" where
  "trim s = rev (dropWhile is_ws (rev (dropWhile is_ws s)))"

text \<open>
  \<open>s.split(/\s+/)\<close>: the pieces between the maximal whitespace runs. A run at the
  start or at the end of the text leaves an empty piece there, and a text without
  whitespace (the empty text too) is one piece.
\<close>

function split_ws :: "jsstring \<Rightarrow> jsstring list" where
  "split_ws s =
     (case dropWhile not_ws s of
        [] \<Rightarrow> [s]
      | c # rest \<Rightarrow> takeWhile not_ws s # split_ws (dropWhile is_ws rest))"
  by pat_completeness auto
termination
proof (relation "measure length")
  show "wf (measure length)" by simp
next
  fix s :: jsstring and c rest
  assume d: "dropWhile not_ws s = c # rest"
  have "length (dropWhile is_ws rest) \<le> length rest"
    by (rule length_dropWhile_le)
  moreover have "length (dropWhile not_ws s) \<le> length s"
    by (rule length_dropWhile_le)
  ultimately show "(dropWhile is_ws rest, s) \<in> measure length"
    using d by simp
qed

declare split_ws.simps [simp del]

text \<open>\<open>s.split(sep)\<close> for a separator of one code unit.\<close>

fun split_on :: "jschar \<Rightarrow> jsstring \<Rightarrow> jsstring list" where
  "split_on sep [] = [[]]"
| "split_on sep (x # xs) =
     (if x = sep then [] # split_on sep xs
      else (case split_on sep xs of
              [] \<Rightarrow> [[x]]
            | p # ps \<Rightarrow> (x # p) # ps))"

text \<open>\<open>lines.join(sep)\<close>.\<close>

fun join :: "jschar \<Rightarrow> jsstring list \<Rightarrow> jsstring" where
  "join sep [] = []"
| "join sep [l] = l"
| "join sep (l # m # ls) = l @ sep # join sep (m # ls)"

text \<open>
  \<open>s.lastIndexOf(t)\<close>: the greatest offset at which \<open>t\<close> occurs in \<open>s\<close>, and
  \<open>-1\<close> when it occurs nowhere. The search starts at \<open>length s - length t\<close> and
  moves towards offset 0.
\<close>

definition occurs_at :: "jsstring \<Rightarrow> jsstring \<Rightarrow> nat \<Rightarrow> bool" where
  "occurs_at s t i \<longleftrightarrow> i + length t \<le> length s \<and> take (length t) (drop i s) = t"

fun lastIndexFrom :: "jsstring \<Rightarrow> jsstring \<Rightarrow> nat \<Rightarrow> int" where
  "lastIndexFrom s t 0 = (if occurs_at s t 0 then 0 else -1)"
| "lastIndexFrom s t (Suc k) =
     (if occurs_at s t (Suc k) then int (Suc k) else lastIndexFrom s t k)"

definition lastIndexOf :: "jsstring \<Rightarrow> jsstring \<Rightarrow> int" where
  "lastIndexOf s t =
     (if length s < length t then -1 else lastIndexFrom s t (length s - length t))"

section \<open>Token estimate\<close>

text \<open>\<open>countTokens(text)\<close> is \<open>text.split(/\s+/).length\<close>.\<close>

definition countTokens :: "jsstring \<Rightarrow> nat" where
  "countTokens text = length (split_ws text)"

text \<open>The estimate as the number that is compared with the budget.\<close>

definition token_estimate :: "jsstring \<Rightarrow> int" where
  "token_estimate t = int (countTokens t)"

text \<open>
  The number of maximal runs of elements that satisfy \<open>P\<close>, counted at the last
  element of each run. This is the reading of "count of maximal runs of
  non-whitespace characters" that \<open>countTokens\<close> is compared with.
\<close>

fun runs :: "('a \<Rightarrow> bool) \<Rightarrow> 'a list \<Rightarrow> nat" where
  "runs P [] = 0"
| "runs P [x] = (if P x then 1 else 0)"
| "runs P (x # y # r) = (if P x \<and> \<not> P y then 1 else 0) + runs P (y # r)"

section \<open>Syntax tree\<close>

text \<open>
  Modelled from the spec: the syntax node of the parsing backend, which is not part
  of the repository. A node has a grammar category (\<open>node.type\<close>), its text, start
  and end positions (a row and a column each), the end offset \<open>endIndex\<close> into the
  source text, the role under which its parent holds it (what
  \<open>parent.childForFieldName\<close> looks up) and its ordered children. The tree is
  immutable. A node does not store its parent: the functions that read
  \<open>node.parent\<close> take the chain of ancestors, nearest first, and the root has the
  empty chain.
\<close>

record point =
  row :: nat
  column :: nat

text \<open>
  The source reads \<open>startPosition.index\<close> and \<open>endPosition.index\<close>. A position of
  the backend has a row and a column and no other property (the offsets are
  \<open>startIndex\<close> and \<open>endIndex\<close> of the node), so the read gives \<open>undefined\<close>.
\<close>

definition index :: "point \<Rightarrow> nat option" where
  "index p = None"

datatype node = Node
  (ntype: string)
  (ntext: jsstring)
  (startPosition: point)
  (endPosition: point)
  (endIndex: nat)
  (fieldName: "string option")
  (children: "node list")

text \<open>The exception of the host language for a property read on \<open>undefined\<close>.\<close>

datatype error = TypeError

section \<open>Collapsing engine\<close>

definition collapsedReplacement :: "node \<Rightarrow> jsstring" where
  "collapsedReplacement node =
     (if ntype node = ''statement_block'' \<or> ntype node = ''compound_statement''
      then js ''{ ... }''
      else js ''...'')"

text \<open>\<open>firstChild\<close> takes one grammar name or an array of them.\<close>

datatype grammarName = Single string | Many "string list"

definition firstChild :: "node \<Rightarrow> grammarName \<Rightarrow> node option" where
  "firstChild node grammarName =
     (case grammarName of
        Many names \<Rightarrow> find (\<lambda>child. ntype child \<in> set names) (children node)
      | Single name \<Rightarrow> find (\<lambda>child. ntype child = name) (children node))"

text \<open>
  One round of the loop over the members to collapse (lines 92 to 105): the working
  text and the list of collapsed members, which grows at the front.
\<close>

definition collapse_child ::
  "grammarName \<Rightarrow> node \<Rightarrow> jsstring \<times> jsstring list \<Rightarrow> jsstring \<times> jsstring list" where
  "collapse_child collapseBlockTypes child acc =
     (case firstChild child collapseBlockTypes of
        None \<Rightarrow> acc
      | Some grandChild \<Rightarrow>
          (let code = fst acc;
               start = index (startPosition grandChild);
               stop = index (endPosition grandChild);
               collapsedChild =
                 slice (index (startPosition child)) start code @ collapsedReplacement grandChild
           in (slice (Some 0) start code @ collapsedReplacement grandChild
                 @ slice stop None code,
               collapsedChild # snd acc)))"

definition childrenToCollapse :: "node \<Rightarrow> grammarName \<Rightarrow> string list \<Rightarrow> node list" where
  "childrenToCollapse node blockTypes collapseTypes =
     (case firstChild node blockTypes of
        None \<Rightarrow> []
      | Some block \<Rightarrow> filter (\<lambda>child. ntype child \<in> set collapseTypes) (children block))"

text \<open>The state of the eviction loop: the three variables it assigns.\<close>

record evict_state =
  st_code :: jsstring
  st_children :: "jsstring list"
  st_removed :: bool

text \<open>Lines 83 to 109: the state in which the eviction loop starts.\<close>

definition collapse_phase ::
  "node \<Rightarrow> jsstring \<Rightarrow> grammarName \<Rightarrow> string list \<Rightarrow> grammarName \<Rightarrow> evict_state" where
  "collapse_phase node code blockTypes collapseTypes collapseBlockTypes =
     (let acc = fold (collapse_child collapseBlockTypes)
                  (rev (childrenToCollapse node blockTypes collapseTypes))
                  (slice (Some 0) (Some (endIndex node)) code, [])
      in \<lparr>st_code = slice (index (startPosition node)) None (fst acc),
          st_children = snd acc,
          st_removed = False\<rparr>)"

text \<open>
  The units of the members one by one, in source order: a member without a body
  block has none, and a member with one has the slice of line 97, taken from the
  working text in which the members after it are already collapsed, followed by
  the placeholder of the body.
\<close>

fun member_units :: "grammarName \<Rightarrow> jsstring \<Rightarrow> node list \<Rightarrow> jsstring list" where
  "member_units collapseBlockTypes code [] = []"
| "member_units collapseBlockTypes code (child # later) =
     (case firstChild child collapseBlockTypes of
        None \<Rightarrow> member_units collapseBlockTypes code later
      | Some grandChild \<Rightarrow>
          (slice (index (startPosition child)) (index (startPosition grandChild))
             (fst (fold (collapse_child collapseBlockTypes) (rev later) (code, [])))
           @ collapsedReplacement grandChild)
          # member_units collapseBlockTypes code later)"

text \<open>
  The eviction loop (lines 110 to 120), for any estimator \<open>est\<close>; the source
  calls it with \<open>countTokens\<close>.
\<close>

definition evict_cond :: "(jsstring \<Rightarrow> int) \<Rightarrow> int \<Rightarrow> evict_state \<Rightarrow> bool" where
  "evict_cond est maxChunkSize st \<longleftrightarrow>
     est (trim (st_code st)) > maxChunkSize \<and> length (st_children st) > 0"

definition evict_body :: "evict_state \<Rightarrow> evict_state" where
  "evict_body st =
     (let childCode = last (st_children st);
          idx = lastIndexOf (st_code st) childCode
      in \<lparr>st_code =
            (if idx > 0
             then take (nat idx) (st_code st) @ drop (nat idx + length childCode) (st_code st)
             else st_code st),
          st_children = butlast (st_children st),
          st_removed = True\<rparr>)"

text \<open>
  What a round does to the working text (lines 116 to 119), as a function of the
  text and the unit popped.
\<close>

definition remove_last :: "jsstring \<Rightarrow> jsstring \<Rightarrow> jsstring" where
  "remove_last s t =
     (if lastIndexOf s t > 0
      then take (nat (lastIndexOf s t)) s @ drop (nat (lastIndexOf s t) + length t) s
      else s)"

function evict_loop :: "(jsstring \<Rightarrow> int) \<Rightarrow> int \<Rightarrow> evict_state \<Rightarrow> evict_state" where
  "evict_loop est maxChunkSize st =
     (if evict_cond est maxChunkSize st
      then evict_loop est maxChunkSize (evict_body st)
      else st)"
  by pat_completeness auto
termination
  by (relation "measure (\<lambda>(est, maxChunkSize, st). length (st_children st))")
     (auto simp: evict_cond_def evict_body_def Let_def)

declare evict_loop.simps [simp del]

section \<open>Whitespace normalization\<close>

definition blank :: "jsstring \<Rightarrow> bool" where
  "blank l \<longleftrightarrow> trim l = []"

text \<open>
  The loop of lines 125 to 139; \<open>norm_loop (Suc i)\<close> is the round for index \<open>i\<close>,
  \<open>norm_loop 0\<close> the exit. Reading \<open>lines[i]\<close> past the end of the array gives
  \<open>undefined\<close>, and \<open>trim\<close> on it throws.
\<close>

fun norm_loop :: "nat \<Rightarrow> jsstring list \<Rightarrow> int \<Rightarrow> error + jsstring list" where
  "norm_loop 0 lines firstWhiteSpaceInGroup = Inr lines"
| "norm_loop (Suc i) lines firstWhiteSpaceInGroup =
     (if length lines \<le> i then Inl TypeError
      else if blank (lines ! i)
      then norm_loop i lines
             (if firstWhiteSpaceInGroup < 0 then int i else firstWhiteSpaceInGroup)
      else norm_loop i
             (if firstWhiteSpaceInGroup - int i > 1
              then take (i + 1) lines @ drop (nat (firstWhiteSpaceInGroup + 1)) lines
              else lines)
             (- 1))"

text \<open>Lines 123 to 141.\<close>

definition normalize :: "jsstring \<Rightarrow> error + jsstring" where
  "normalize code =
     (let lines = split_on newline code
      in case norm_loop (length lines) lines (- 1) of
           Inl e \<Rightarrow> Inl e
         | Inr lines' \<Rightarrow> Inr (join newline lines'))"

definition collapseChildren ::
  "node \<Rightarrow> jsstring \<Rightarrow> grammarName \<Rightarrow> string list \<Rightarrow> grammarName \<Rightarrow> int \<Rightarrow> error + jsstring" where
  "collapseChildren node code blockTypes collapseTypes collapseBlockTypes maxChunkSize =
     (let st = evict_loop token_estimate maxChunkSize
                 (collapse_phase node code blockTypes collapseTypes collapseBlockTypes)
      in if st_removed st then normalize (st_code st) else Inr (st_code st))"

section \<open>Constructors of collapsed chunks\<close>

definition FUNCTION_BLOCK_NODE_TYPES :: "string list" where
  "FUNCTION_BLOCK_NODE_TYPES = [''block'', ''statement_block'', ''compound_statement'']"

definition FUNCTION_DECLARATION_NODE_TYPES :: "string list" where
  "FUNCTION_DECLARATION_NODE_TYPES =
     [''method_definition'', ''function_definition'', ''function_item'',
      ''function_declaration'', ''method_declaration'']"

definition constructClassDefinitionChunk :: "node \<Rightarrow> jsstring \<Rightarrow> int \<Rightarrow> error + jsstring" where
  "constructClassDefinitionChunk node code maxChunkSize =
     collapseChildren node code
       (Many [''block'', ''class_body'', ''declaration_list''])
       FUNCTION_DECLARATION_NODE_TYPES
       (Many FUNCTION_BLOCK_NODE_TYPES)
       maxChunkSize"

text \<open>The state in which the eviction loop of \<open>constructClassDefinitionChunk\<close> starts.\<close>

definition class_phase :: "node \<Rightarrow> jsstring \<Rightarrow> evict_state" where
  "class_phase node code =
     collapse_phase node code
       (Many [''block'', ''class_body'', ''declaration_list''])
       FUNCTION_DECLARATION_NODE_TYPES
       (Many FUNCTION_BLOCK_NODE_TYPES)"

text \<open>
  \<open>funcText\<close> of lines 168 to 171. A node without children has
  \<open>bodyNode = undefined\<close>, and reading \<open>bodyNode.startPosition\<close> throws.
\<close>

definition funcText :: "node \<Rightarrow> jsstring \<Rightarrow> error + jsstring" where
  "funcText node code =
     (if children node = [] then Inl TypeError
      else (let bodyNode = last (children node)
            in Inr (slice (index (startPosition node)) (index (startPosition bodyNode)) code
                    @ collapsedReplacement bodyNode)))"

text \<open>
  \<open>ancestors\<close> is \<open>node.parent\<close>, \<open>node.parent.parent\<close>, and so on; \<open>node.parent\<close> is
  \<open>null\<close> when the chain is empty.
\<close>

definition constructFunctionDefinitionChunk ::
  "node list \<Rightarrow> node \<Rightarrow> jsstring \<Rightarrow> int \<Rightarrow> error + jsstring" where
  "constructFunctionDefinitionChunk ancestors node code maxChunkSize =
     (case funcText node code of
        Inl e \<Rightarrow> Inl e
      | Inr ft \<Rightarrow>
          (case ancestors of
             [] \<Rightarrow> Inr ft
           | parent # upper \<Rightarrow>
               if ntype parent \<in> set [''block'', ''declaration_list'']
               then (case upper of
                       [] \<Rightarrow> Inr ft
                     | classNode # _ \<Rightarrow>
                         if ntype classNode \<in> set [''class_definition'', ''impl_item'']
                         then Inr (slice (index (startPosition classNode))
                                     (index (startPosition parent)) code
                                   @ js ''...'' @ [newline, newline]
                                   @ replicate (column (startPosition node)) 0x20
                                   @ ft)
                         else Inr ft)
               else Inr ft))"

text \<open>The table of constructors, by the properties the object literal gives it.\<close>

datatype constructor = ClassDefinitionChunk | FunctionDefinitionChunk

definition collapsedNodeConstructors :: "(string \<times> constructor) list" where
  "collapsedNodeConstructors =
     [(''class_definition'', ClassDefinitionChunk),
      (''class_declaration'', ClassDefinitionChunk),
      (''impl_item'', ClassDefinitionChunk),
      (''function_definition'', FunctionDefinitionChunk),
      (''function_declaration'', FunctionDefinitionChunk),
      (''function_item'', FunctionDefinitionChunk),
      (''method_declaration'', FunctionDefinitionChunk)]"

section \<open>Objects, enrichment and the global context\<close>

text \<open>
  The values the chunk objects hold; \<open>HostObject\<close> stands for an object of the
  host (a syntax node, the table of constructors) that the model does not look
  into. An object is the list of its properties in insertion order; assigning to
  a property that exists keeps its place and replaces its value, as
  \<open>AList.update\<close> does.
\<close>

datatype jsval =
  Undefined
| Null
| HostObject
| Str jsstring
| Num int
| Boolean bool
| Arr "jsval list"
| Obj "(string \<times> jsval) list"

type_synonym obj = "(string \<times> jsval) list"

text \<open>\<open>ob[k] = v\<close>, the spread \<open>{...a, ...b}\<close> and the read \<open>ob[k]\<close>.\<close>

definition assign :: "string \<Rightarrow> jsval \<Rightarrow> obj \<Rightarrow> obj" where
  "assign k v ob = AList.update k v ob"

definition spread :: "obj \<Rightarrow> obj \<Rightarrow> obj" where
  "spread a b = fold (\<lambda>kv. AList.update (fst kv) (snd kv)) b a"

definition field :: "obj \<Rightarrow> string \<Rightarrow> jsval" where
  "field ob k = (case map_of ob k of None \<Rightarrow> Undefined | Some v \<Rightarrow> v)"

text \<open>The truthiness of a value, for \<open>if (x)\<close>.\<close>

definition truthy :: "jsval \<Rightarrow> bool" where
  "truthy v =
     (case v of
        Undefined \<Rightarrow> False
      | Null \<Rightarrow> False
      | HostObject \<Rightarrow> True
      | Str t \<Rightarrow> t \<noteq> []
      | Num n \<Rightarrow> n \<noteq> 0
      | Boolean b \<Rightarrow> b
      | Arr _ \<Rightarrow> True
      | Obj _ \<Rightarrow> True)"

definition childForFieldName :: "node \<Rightarrow> string \<Rightarrow> node option" where
  "childForFieldName node name = find (\<lambda>child. fieldName child = Some name) (children node)"

text \<open>\<open>n?.text\<close>.\<close>

definition opt_text :: "node option \<Rightarrow> jsval" where
  "opt_text n = (case n of None \<Rightarrow> Undefined | Some c \<Rightarrow> Str (ntext c))"

definition line_of :: "point \<Rightarrow> jsval" where
  "line_of p = Num (int (row p) + 1)"

definition extractParameters :: "node option \<Rightarrow> jsval" where
  "extractParameters parametersNode =
     (case parametersNode of
        None \<Rightarrow> Arr []
      | Some ps \<Rightarrow>
          Arr (map (\<lambda>param. Obj [(''type'', opt_text (childForFieldName param ''type'')),
                                  (''name'', opt_text (childForFieldName param ''declarator''))])
                 (filter (\<lambda>child. ntype child = ''parameter_declaration'') (children ps))))"

definition extractArguments :: "node option \<Rightarrow> jsval" where
  "extractArguments argumentsNode =
     (case argumentsNode of
        None \<Rightarrow> Arr []
      | Some as \<Rightarrow>
          Arr (map (\<lambda>arg. Str (ntext arg)) (filter (\<lambda>child. ntype child \<noteq> '','') (children as))))"

text \<open>\<open>traverseNode(node, callback)\<close>: the nodes in the order the callback sees them.\<close>

fun traverseNode :: "node \<Rightarrow> node list" where
  "traverseNode (Node t x sp ep ei f cs) =
     Node t x sp ep ei f cs # concat (map traverseNode cs)"

definition extractFunctionBody :: "node option \<Rightarrow> jsval" where
  "extractFunctionBody bodyNode =
     (case bodyNode of
        None \<Rightarrow> Str []
      | Some b \<Rightarrow>
          (let visited = traverseNode b
           in Obj
             [(''variables'',
               Arr (map (\<lambda>n. Obj [(''type'', opt_text (childForFieldName n ''type'')),
                                  (''name'', opt_text (childForFieldName n ''declarator'')),
                                  (''line'', line_of (startPosition n))])
                      (filter (\<lambda>n. ntype n = ''declaration'') visited))),
              (''controlStructures'',
               Arr (map (\<lambda>n. Obj [(''type'', Str (js (ntype n))),
                                  (''condition'', opt_text (childForFieldName n ''condition'')),
                                  (''line'', line_of (startPosition n))])
                      (filter (\<lambda>n. ntype n \<in> set [''if_statement'', ''for_statement'',
                                                    ''while_statement'', ''do_statement''])
                         visited))),
              (''functionCalls'',
               Arr (map (\<lambda>n. Obj [(''name'', opt_text (childForFieldName n ''function'')),
                                  (''arguments'',
                                   extractArguments (childForFieldName n ''arguments'')),
                                  (''line'', line_of (startPosition n))])
                      (filter (\<lambda>n. ntype n = ''call_expression'') visited)))]))"

text \<open>
  \<open>globalContext\<close>: the three maps keep their entries in insertion order, keyed by
  any value (a missing name is the key \<open>undefined\<close>).
\<close>

record gcontext =
  g_variables :: "(jsval \<times> obj) list"
  g_functions :: "(jsval \<times> obj) list"
  g_macros :: "(jsval \<times> obj) list"
  currentFunction :: jsval
  currentFile :: jsval

text \<open>
  \<open>extractNodeDetails\<close> returns the details and, for a function definition, writes
  \<open>globalContext.currentFunction\<close>. Its parameter \<open>code\<close> is handed on to
  \<open>extractFunctionBody\<close>, which does not read it.
\<close>

definition extractNodeDetails :: "gcontext \<Rightarrow> node \<Rightarrow> jsval \<Rightarrow> obj \<times> gcontext" where
  "extractNodeDetails ctx node code =
     (let details = [(''type'', Str (js (ntype node))),
                     (''startLine'', line_of (startPosition node)),
                     (''endLine'', line_of (endPosition node)),
                     (''content'', Str (ntext node))]
      in if ntype node = ''function_definition'' then
           (let d = assign ''body'' (extractFunctionBody (childForFieldName node ''body''))
                     (assign ''parameters'' (extractParameters (childForFieldName node ''parameters''))
                       (assign ''returnType'' (opt_text (childForFieldName node ''type''))
                         (assign ''name'' (opt_text (childForFieldName node ''declarator''))
                           details)))
            in (d, ctx\<lparr>currentFunction := field d ''name''\<rparr>))
         else if ntype node = ''declaration'' then
           (let d = assign ''declarationName'' (opt_text (childForFieldName node ''declarator''))
                     (assign ''declarationType'' (opt_text (childForFieldName node ''type''))
                       details)
            in ((case field d ''declarationType'' of
                   Str t \<Rightarrow> if 0x2A \<in> set t then assign ''isPointer'' (Boolean True) d else d
                 | _ \<Rightarrow> d),
                ctx))
         else if ntype node = ''identifier'' then
           (assign ''usage'' (Str (js ''access'')) (assign ''name'' (Str (ntext node)) details),
            ctx)
         else if ntype node = ''pointer_expression'' then
           (assign ''usage'' (Str (js ''dereference''))
              (assign ''pointerName'' (opt_text (childForFieldName node ''argument'')) details),
            ctx)
         else if ntype node = ''call_expression'' then
           (assign ''arguments'' (extractArguments (childForFieldName node ''arguments''))
              (assign ''functionName'' (opt_text (childForFieldName node ''function'')) details),
            ctx)
         else if ntype node = ''macro_definition'' then
           (assign ''value'' (opt_text (childForFieldName node ''value''))
              (assign ''name'' (opt_text (childForFieldName node ''name'')) details),
            ctx)
         else if ntype node = ''preproc_include'' then
           (assign ''path'' (opt_text (childForFieldName node ''path'')) details, ctx)
         else (details, ctx))"

text \<open>The use site that \<open>updateGlobalContext\<close> pushes on \<open>accesses\<close> and \<open>calls\<close>.\<close>

definition use_site :: "gcontext \<Rightarrow> obj \<Rightarrow> jsval" where
  "use_site ctx details =
     Obj [(''file'', currentFile ctx),
          (''function'', currentFunction ctx),
          (''line'', field details ''startLine'')]"

definition push :: "string \<Rightarrow> jsval \<Rightarrow> obj \<Rightarrow> obj" where
  "push k v ob =
     (case field ob k of
        Arr xs \<Rightarrow> assign k (Arr (xs @ [v])) ob
      | _ \<Rightarrow> ob)"

text \<open>The \<open>switch\<close> of \<open>updateGlobalContext\<close> (lines 338 to 383).\<close>

definition update_entry :: "gcontext \<Rightarrow> obj \<Rightarrow> gcontext" where
  "update_entry ctx details =
     (let ty = field details ''type''
      in if ty = Str (js ''function_definition'') then
           ctx\<lparr>g_functions :=
                 AList.update (field details ''name'')
                   (spread details [(''file'', currentFile ctx), (''calls'', Arr [])])
                   (g_functions ctx)\<rparr>
         else if ty = Str (js ''declaration'') then
           (if truthy (field details ''declarationName'')
            then ctx\<lparr>g_variables :=
                       AList.update (field details ''declarationName'')
                         (spread details [(''file'', currentFile ctx),
                                          (''function'', currentFunction ctx),
                                          (''accesses'', Arr [])])
                         (g_variables ctx)\<rparr>
            else ctx)
         else if ty = Str (js ''identifier'') then
           (case map_of (g_variables ctx) (field details ''name'') of
              None \<Rightarrow> ctx
            | Some variable \<Rightarrow>
                ctx\<lparr>g_variables :=
                      AList.update (field details ''name'')
                        (push ''accesses'' (use_site ctx details) variable)
                        (g_variables ctx)\<rparr>)
         else if ty = Str (js ''call_expression'') then
           (case map_of (g_functions ctx) (field details ''functionName'') of
              None \<Rightarrow> ctx
            | Some func \<Rightarrow>
                ctx\<lparr>g_functions :=
                      AList.update (field details ''functionName'')
                        (push ''calls'' (use_site ctx details) func)
                        (g_functions ctx)\<rparr>)
         else if ty = Str (js ''macro_definition'') then
           ctx\<lparr>g_macros :=
                 AList.update (field details ''name'')
                   (spread details [(''file'', currentFile ctx), (''uses'', Arr [])])
                   (g_macros ctx)\<rparr>
         else ctx)"

text \<open>
  \<open>processNode(node, code, filePath)\<close> and \<open>updateGlobalContext(details, node)\<close>.
  The call of line 387 passes two arguments, \<open>processNode(child,
  globalContext.currentFile)\<close>: the file becomes \<open>code\<close> and \<open>filePath\<close> is
  \<open>undefined\<close>.
\<close>

fun processNode :: "gcontext \<Rightarrow> node \<Rightarrow> jsval \<Rightarrow> jsval \<Rightarrow> obj \<times> gcontext"
  and updateChildren :: "gcontext \<Rightarrow> node list \<Rightarrow> gcontext" where
  "processNode ctx (Node t x sp ep ei f cs) code filePath =
     (let node = Node t x sp ep ei f cs;
          dc = extractNodeDetails (ctx\<lparr>currentFile := filePath\<rparr>) node code
      in (fst dc, updateChildren (update_entry (snd dc) (fst dc)) cs))"
| "updateChildren ctx [] = ctx"
| "updateChildren ctx (child # cs) =
     updateChildren (snd (processNode ctx child (currentFile ctx) Undefined)) cs"

definition updateGlobalContext :: "gcontext \<Rightarrow> obj \<Rightarrow> node \<Rightarrow> gcontext" where
  "updateGlobalContext ctx details node =
     updateChildren (update_entry ctx details) (children node)"

section \<open>Chunk generator\<close>

text \<open>
  \<open>node.type in collapsedNodeConstructors\<close> holds for the seven properties of the
  table and for the properties it inherits from \<open>Object.prototype\<close>.
\<close>

definition inherited_properties :: "string list" where
  "inherited_properties =
     [''constructor'', ''__defineGetter__'', ''__defineSetter__'', ''hasOwnProperty'',
      ''__lookupGetter__'', ''__lookupSetter__'', ''isPrototypeOf'',
      ''propertyIsEnumerable'', ''toString'', ''valueOf'', ''__proto__'',
      ''toLocaleString'']"

definition in_collapsedNodeConstructors :: "string \<Rightarrow> bool" where
  "in_collapsedNodeConstructors t \<longleftrightarrow>
     map_of collapsedNodeConstructors t \<noteq> None \<or> t \<in> set inherited_properties"

text \<open>
  An inherited property called as \<open>collapsedNodeConstructors[t](node, code,
  maxChunkSize)\<close>: \<open>__defineGetter__\<close> and \<open>__defineSetter__\<close> throw because \<open>code\<close>
  is not a function, \<open>__proto__\<close> is the prototype object and not a function,
  \<open>toString\<close> and \<open>toLocaleString\<close> describe the table, the three tests answer
  \<open>false\<close> for a syntax node, the two lookups find no accessor, and
  \<open>constructor\<close> and \<open>valueOf\<close> return an object (the node, the table).
\<close>

definition call_inherited :: "string \<Rightarrow> error + jsval" where
  "call_inherited t =
     (if t \<in> set [''__defineGetter__'', ''__defineSetter__'', ''__proto__'']
      then Inl TypeError
      else if t \<in> set [''toString'', ''toLocaleString'']
      then Inr (Str (js ''[object Object]''))
      else if t \<in> set [''hasOwnProperty'', ''isPrototypeOf'', ''propertyIsEnumerable'']
      then Inr (Boolean False)
      else if t \<in> set [''__lookupGetter__'', ''__lookupSetter__'']
      then Inr Undefined
      else Inr HostObject)"

text \<open>\<open>collapsedNodeConstructors[node.type](node, code, maxChunkSize)\<close>.\<close>

definition construct :: "node list \<Rightarrow> node \<Rightarrow> jsstring \<Rightarrow> int \<Rightarrow> error + jsval" where
  "construct ancestors node code maxChunkSize =
     (case map_of collapsedNodeConstructors (ntype node) of
        Some ClassDefinitionChunk \<Rightarrow>
          map_sum id Str (constructClassDefinitionChunk node code maxChunkSize)
      | Some FunctionDefinitionChunk \<Rightarrow>
          map_sum id Str (constructFunctionDefinitionChunk ancestors node code maxChunkSize)
      | None \<Rightarrow> call_inherited (ntype node))"

definition maybeYieldChunk :: "node \<Rightarrow> jsstring \<Rightarrow> int \<Rightarrow> bool \<Rightarrow> obj option" where
  "maybeYieldChunk node code maxChunkSize root =
     (if root \<or> in_collapsedNodeConstructors (ntype node)
      then (let tokenCount = int (countTokens (ntext node))
            in if tokenCount < maxChunkSize
               then Some [(''content'', Str (ntext node)),
                          (''startLine'', line_of (startPosition node)),
                          (''endLine'', line_of (endPosition node))]
               else None)
      else None)"

text \<open>
  What a run of the generator leaves: the chunks it yielded, in order, the
  exception that ended it (if one did) and the global context.
\<close>

record run =
  chunks :: "obj list"
  thrown :: "error option"
  ctx_after :: gcontext

text \<open>
  The chunk a node yields by itself (lines 437 to 457), for a given enrichment
  \<open>enrich\<close>, and whether the generator returns after it. The object literal
  evaluates \<open>content\<close> first, so a constructor that throws leaves the context
  as it was.
\<close>

definition node_chunk ::
  "(gcontext \<Rightarrow> obj \<times> gcontext) \<Rightarrow> gcontext \<Rightarrow> node list \<Rightarrow> node \<Rightarrow> jsstring \<Rightarrow> int \<Rightarrow> bool
   \<Rightarrow> run \<times> bool" where
  "node_chunk enrich ctx ancestors node code maxChunkSize root =
     (case maybeYieldChunk node code maxChunkSize root of
        Some chunk \<Rightarrow>
          (let dc = enrich ctx
           in (\<lparr>chunks = [spread (spread [] chunk) (fst dc)], thrown = None,
                ctx_after = snd dc\<rparr>, True))
      | None \<Rightarrow>
          (if in_collapsedNodeConstructors (ntype node)
           then (case construct ancestors node code maxChunkSize of
                   Inl e \<Rightarrow> (\<lparr>chunks = [], thrown = Some e, ctx_after = ctx\<rparr>, True)
                 | Inr content \<Rightarrow>
                     (let dc = enrich ctx
                      in (\<lparr>chunks = [spread [(''content'', content),
                                              (''startLine'', line_of (startPosition node)),
                                              (''endLine'', line_of (endPosition node))]
                                        (fst dc)],
                           thrown = None, ctx_after = snd dc\<rparr>, False)))
           else (\<lparr>chunks = [], thrown = None, ctx_after = ctx\<rparr>, False)))"

text \<open>
  The definition of line 436, the one the name is bound to: enrichment by
  \<open>extractNodeDetails\<close>.
\<close>

fun getSmartCollapsedChunks ::
    "gcontext \<Rightarrow> node list \<Rightarrow> node \<Rightarrow> jsstring \<Rightarrow> int \<Rightarrow> bool \<Rightarrow> run"
  and chunks_of_children ::
    "gcontext \<Rightarrow> node list \<Rightarrow> node list \<Rightarrow> jsstring \<Rightarrow> int \<Rightarrow> run" where
  "getSmartCollapsedChunks ctx ancestors (Node t x sp ep ei f cs) code maxChunkSize root =
     (let node = Node t x sp ep ei f cs;
          own = node_chunk (\<lambda>c. extractNodeDetails c node (Str code))
                  ctx ancestors node code maxChunkSize root
      in if snd own then fst own
         else (let below = chunks_of_children (ctx_after (fst own)) (node # ancestors) cs
                             code maxChunkSize
               in below\<lparr>chunks := chunks (fst own) @ chunks below\<rparr>))"
| "chunks_of_children ctx ancestors [] code maxChunkSize =
     \<lparr>chunks = [], thrown = None, ctx_after = ctx\<rparr>"
| "chunks_of_children ctx ancestors (child # cs) code maxChunkSize =
     (let first = getSmartCollapsedChunks ctx ancestors child code maxChunkSize False
      in if thrown first \<noteq> None then first
         else (let others = chunks_of_children (ctx_after first) ancestors cs code maxChunkSize
               in others\<lparr>chunks := chunks first @ chunks others\<rparr>))"

text \<open>
  The definition of line 391, which the later one shadows: enrichment by
  \<open>processNode\<close>, and the extra parameter \<open>filePath\<close>.
\<close>

fun getSmartCollapsedChunks_391 ::
    "gcontext \<Rightarrow> node list \<Rightarrow> node \<Rightarrow> jsstring \<Rightarrow> int \<Rightarrow> jsval \<Rightarrow> bool \<Rightarrow> run"
  and chunks_of_children_391 ::
    "gcontext \<Rightarrow> node list \<Rightarrow> node list \<Rightarrow> jsstring \<Rightarrow> int \<Rightarrow> jsval \<Rightarrow> run" where
  "getSmartCollapsedChunks_391 ctx ancestors (Node t x sp ep ei f cs) code maxChunkSize
       filePath root =
     (let node = Node t x sp ep ei f cs;
          own = node_chunk (\<lambda>c. processNode c node (Str code) filePath)
                  ctx ancestors node code maxChunkSize root
      in if snd own then fst own
         else (let below = chunks_of_children_391 (ctx_after (fst own)) (node # ancestors) cs
                             code maxChunkSize filePath
               in below\<lparr>chunks := chunks (fst own) @ chunks below\<rparr>))"
| "chunks_of_children_391 ctx ancestors [] code maxChunkSize filePath =
     \<lparr>chunks = [], thrown = None, ctx_after = ctx\<rparr>"
| "chunks_of_children_391 ctx ancestors (child # cs) code maxChunkSize filePath =
     (let first = getSmartCollapsedChunks_391 ctx ancestors child code maxChunkSize
                    filePath False
      in if thrown first \<noteq> None then first
         else (let others = chunks_of_children_391 (ctx_after first) ancestors cs code
                              maxChunkSize filePath
               in others\<lparr>chunks := chunks first @ chunks others\<rparr>))"

text \<open>The context a process starts with (lines 213 to 219).\<close>

definition globalContext :: gcontext where
  "globalContext =
     \<lparr>g_variables = [], g_functions = [], g_macros = [],
      currentFunction = Null, currentFile = Null\<rparr>"

section \<open>The normalization loop, seen from the last line\<close>

text \<open>
  The loop scans the lines from the last to the first. \<open>group_step\<close> is what one
  line does to the pair of the blank lines of the group being read and the
  lines already settled below it; \<open>norm_lines\<close> is the array the loop leaves.
\<close>

definition group_step ::
  "jsstring \<Rightarrow> jsstring list \<times> jsstring list \<Rightarrow> jsstring list \<times> jsstring list" where
  "group_step l acc =
     (if blank l then (l # fst acc, snd acc)
      else ([], l # (if length (fst acc) > 1 then snd acc else fst acc @ snd acc)))"

definition groups :: "jsstring list \<Rightarrow> jsstring list \<times> jsstring list" where
  "groups ls = foldr group_step ls ([], [])"

definition norm_lines :: "jsstring list \<Rightarrow> jsstring list" where
  "norm_lines ls = fst (groups ls) @ snd (groups ls)"

section \<open>Example trees\<close>

text \<open>
  Four small sources with the trees their grammars give them: a JavaScript class
  with two methods, a Java class with a concrete and an abstract method, a Rust
  implementation block with one function, and a Java class written without any
  whitespace, its words kept apart by comments.
\<close>

definition pt :: "nat \<Rightarrow> nat \<Rightarrow> point" where
  "pt r c = \<lparr>row = r, column = c\<rparr>"

definition ex_js_code :: jsstring where
  "ex_js_code = js ''class A { f() { a; b } g() { c; d } }''"

definition ex_js_f :: node where
  "ex_js_f =
     Node ''method_definition'' (js ''f() { a; b }'')
            (pt 0 10) (pt 0 22) 22 None
            [Node ''property_identifier'' (js ''f'') (pt 0 10) (pt 0 11) 11 (Some ''name'') [],
             Node ''formal_parameters'' (js ''()'') (pt 0 11) (pt 0 13) 13 (Some ''parameters'') [],
             Node ''statement_block'' (js ''{ a; b }'')
              (pt 0 14) (pt 0 22) 22 (Some ''body'')
              [Node ''{'' (js ''{'') (pt 0 14) (pt 0 15) 15 None [],
               Node ''expression_statement'' (js ''a;'') (pt 0 16) (pt 0 18) 18 None [],
               Node ''expression_statement'' (js ''b'') (pt 0 19) (pt 0 20) 20 None [],
               Node ''}'' (js ''}'') (pt 0 21) (pt 0 22) 22 None []]]"

definition ex_js_g :: node where
  "ex_js_g =
     Node ''method_definition'' (js ''g() { c; d }'')
            (pt 0 23) (pt 0 35) 35 None
            [Node ''property_identifier'' (js ''g'') (pt 0 23) (pt 0 24) 24 (Some ''name'') [],
             Node ''formal_parameters'' (js ''()'') (pt 0 24) (pt 0 26) 26 (Some ''parameters'') [],
             Node ''statement_block'' (js ''{ c; d }'')
              (pt 0 27) (pt 0 35) 35 (Some ''body'')
              [Node ''{'' (js ''{'') (pt 0 27) (pt 0 28) 28 None [],
               Node ''expression_statement'' (js ''c;'') (pt 0 29) (pt 0 31) 31 None [],
               Node ''expression_statement'' (js ''d'') (pt 0 32) (pt 0 33) 33 None [],
               Node ''}'' (js ''}'') (pt 0 34) (pt 0 35) 35 None []]]"

definition ex_js_body :: node where
  "ex_js_body =
     Node ''class_body'' (js ''{ f() { a; b } g() { c; d } }'')
          (pt 0 8) (pt 0 37) 37 (Some ''body'')
          [Node ''{'' (js ''{'') (pt 0 8) (pt 0 9) 9 None [],
           ex_js_f,
           ex_js_g,
           Node ''}'' (js ''}'') (pt 0 36) (pt 0 37) 37 None []]"

definition ex_js_class :: node where
  "ex_js_class =
     Node ''class_declaration'' (js ''class A { f() { a; b } g() { c; d } }'')
        (pt 0 0) (pt 0 37) 37 None
        [Node ''class'' (js ''class'') (pt 0 0) (pt 0 5) 5 None [],
         Node ''identifier'' (js ''A'') (pt 0 6) (pt 0 7) 7 (Some ''name'') [],
         ex_js_body]"

definition ex_js_program :: node where
  "ex_js_program =
     Node ''program'' (js ''class A { f() { a; b } g() { c; d } }'')
      (pt 0 0) (pt 0 37) 37 None
      [ex_js_class]"

definition ex_java_code :: jsstring where
  "ex_java_code = js ''abstract class A { void f() { a(); b(); } abstract void g(); }''"

definition ex_java_f :: node where
  "ex_java_f =
     Node ''method_declaration'' (js ''void f() { a(); b(); }'')
            (pt 0 19) (pt 0 41) 41 None
            [Node ''void_type'' (js ''void'') (pt 0 19) (pt 0 23) 23 (Some ''type'') [],
             Node ''identifier'' (js ''f'') (pt 0 24) (pt 0 25) 25 (Some ''name'') [],
             Node ''formal_parameters'' (js ''()'') (pt 0 25) (pt 0 27) 27 (Some ''parameters'') [],
             Node ''block'' (js ''{ a(); b(); }'')
              (pt 0 28) (pt 0 41) 41 (Some ''body'')
              [Node ''{'' (js ''{'') (pt 0 28) (pt 0 29) 29 None [],
               Node ''expression_statement'' (js ''a();'') (pt 0 30) (pt 0 34) 34 None [],
               Node ''expression_statement'' (js ''b();'') (pt 0 35) (pt 0 39) 39 None [],
               Node ''}'' (js ''}'') (pt 0 40) (pt 0 41) 41 None []]]"

definition ex_java_g :: node where
  "ex_java_g =
     Node ''method_declaration'' (js ''abstract void g();'')
            (pt 0 42) (pt 0 60) 60 None
            [Node ''modifiers'' (js ''abstract'') (pt 0 42) (pt 0 50) 50 None [],
             Node ''void_type'' (js ''void'') (pt 0 51) (pt 0 55) 55 (Some ''type'') [],
             Node ''identifier'' (js ''g'') (pt 0 56) (pt 0 57) 57 (Some ''name'') [],
             Node ''formal_parameters'' (js ''()'') (pt 0 57) (pt 0 59) 59 (Some ''parameters'') [],
             Node '';'' (js '';'') (pt 0 59) (pt 0 60) 60 None []]"

definition ex_java_body :: node where
  "ex_java_body =
     Node ''class_body'' (js ''{ void f() { a(); b(); } abstract void g(); }'')
          (pt 0 17) (pt 0 62) 62 (Some ''body'')
          [Node ''{'' (js ''{'') (pt 0 17) (pt 0 18) 18 None [],
           ex_java_f,
           ex_java_g,
           Node ''}'' (js ''}'') (pt 0 61) (pt 0 62) 62 None []]"

definition ex_java_class :: node where
  "ex_java_class =
     Node ''class_declaration'' (js ''abstract class A { void f() { a(); b(); } abstract void g(); }'')
        (pt 0 0) (pt 0 62) 62 None
        [Node ''modifiers'' (js ''abstract'') (pt 0 0) (pt 0 8) 8 None [],
         Node ''class'' (js ''class'') (pt 0 9) (pt 0 14) 14 None [],
         Node ''identifier'' (js ''A'') (pt 0 15) (pt 0 16) 16 (Some ''name'') [],
         ex_java_body]"

definition ex_java_program :: node where
  "ex_java_program =
     Node ''program'' (js ''abstract class A { void f() { a(); b(); } abstract void g(); }'')
      (pt 0 0) (pt 0 62) 62 None
      [ex_java_class]"

definition ex_rust_code :: jsstring where
  "ex_rust_code = js ''impl A {'' @ [newline] @ js ''    fn f() { a() }'' @ [newline] @ js ''}''"

definition ex_rust_f :: node where
  "ex_rust_f =
     Node ''function_item'' (js ''fn f() { a() }'')
            (pt 1 4) (pt 1 18) 27 None
            [Node ''fn'' (js ''fn'') (pt 1 4) (pt 1 6) 15 None [],
             Node ''identifier'' (js ''f'') (pt 1 7) (pt 1 8) 17 (Some ''name'') [],
             Node ''parameters'' (js ''()'') (pt 1 8) (pt 1 10) 19 (Some ''parameters'') [],
             Node ''block'' (js ''{ a() }'')
              (pt 1 11) (pt 1 18) 27 (Some ''body'')
              [Node ''{'' (js ''{'') (pt 1 11) (pt 1 12) 21 None [],
               Node ''call_expression'' (js ''a()'') (pt 1 13) (pt 1 16) 25 None [],
               Node ''}'' (js ''}'') (pt 1 17) (pt 1 18) 27 None []]]"

definition ex_rust_list :: node where
  "ex_rust_list =
     Node ''declaration_list'' (js ''{'' @ [newline] @ js ''    fn f() { a() }'' @ [newline] @ js ''}'')
          (pt 0 7) (pt 2 1) 29 (Some ''body'')
          [Node ''{'' (js ''{'') (pt 0 7) (pt 0 8) 8 None [],
           ex_rust_f,
           Node ''}'' (js ''}'') (pt 2 0) (pt 2 1) 29 None []]"

definition ex_rust_impl :: node where
  "ex_rust_impl =
     Node ''impl_item'' (js ''impl A {'' @ [newline] @ js ''    fn f() { a() }'' @ [newline] @ js ''}'')
        (pt 0 0) (pt 2 1) 29 None
        [Node ''impl'' (js ''impl'') (pt 0 0) (pt 0 4) 4 None [],
         Node ''type_identifier'' (js ''A'') (pt 0 5) (pt 0 6) 6 (Some ''type'') [],
         ex_rust_list]"

definition ex_rust_file :: node where
  "ex_rust_file =
     Node ''source_file'' (js ''impl A {'' @ [newline] @ js ''    fn f() { a() }'' @ [newline] @ js ''}'')
      (pt 0 0) (pt 2 1) 29 None
      [ex_rust_impl]"

definition ex_dense_code :: jsstring where
  "ex_dense_code = js ''class/**/A{void/**/f(){}}''"

definition ex_dense_f :: node where
  "ex_dense_f =
     Node ''method_declaration'' (js ''void/**/f(){}'')
            (pt 0 11) (pt 0 24) 24 None
            [Node ''void_type'' (js ''void'') (pt 0 11) (pt 0 15) 15 (Some ''type'') [],
             Node ''block_comment'' (js ''/**/'') (pt 0 15) (pt 0 19) 19 None [],
             Node ''identifier'' (js ''f'') (pt 0 19) (pt 0 20) 20 (Some ''name'') [],
             Node ''formal_parameters'' (js ''()'') (pt 0 20) (pt 0 22) 22 (Some ''parameters'') [],
             Node ''block'' (js ''{}'')
              (pt 0 22) (pt 0 24) 24 (Some ''body'')
              [Node ''{'' (js ''{'') (pt 0 22) (pt 0 23) 23 None [],
               Node ''}'' (js ''}'') (pt 0 23) (pt 0 24) 24 None []]]"

definition ex_dense_body :: node where
  "ex_dense_body =
     Node ''class_body'' (js ''{void/**/f(){}}'')
          (pt 0 10) (pt 0 25) 25 (Some ''body'')
          [Node ''{'' (js ''{'') (pt 0 10) (pt 0 11) 11 None [],
           ex_dense_f,
           Node ''}'' (js ''}'') (pt 0 24) (pt 0 25) 25 None []]"

definition ex_dense_class :: node where
  "ex_dense_class =
     Node ''class_declaration'' (js ''class/**/A{void/**/f(){}}'')
        (pt 0 0) (pt 0 25) 25 None
        [Node ''class'' (js ''class'') (pt 0 0) (pt 0 5) 5 None [],
         Node ''block_comment'' (js ''/**/'') (pt 0 5) (pt 0 9) 9 None [],
         Node ''identifier'' (js ''A'') (pt 0 9) (pt 0 10) 10 (Some ''name'') [],
         ex_dense_body]"

definition ex_dense_program :: node where
  "ex_dense_program =
     Node ''program'' (js ''class/**/A{void/**/f(){}}'')
      (pt 0 0) (pt 0 25) 25 None
      [ex_dense_class]"


text \<open>
  A function declaration without children, a loop state whose only unit stands at
  offset 0 of the working text, and an estimator that breaks the monotonicity
  contract: removing characters raises its estimate.
\<close>

definition ex_leaf_function :: node where
  "ex_leaf_function =
     Node ''function_declaration'' (js ''f'') (pt 0 0) (pt 0 1) 1 None []"

definition ex_unit_at_start :: evict_state where
  "ex_unit_at_start =
     \<lparr>st_code = js ''f() { ... } // end'', st_children = [js ''f() { ... }''],
      st_removed = False\<rparr>"

definition est_rising :: "jsstring \<Rightarrow> int" where
  "est_rising t = 1000 - int (length t)"

section \<open>Helper lemmas on the token estimate\<close>

lemma runs_none: "\<forall>x \<in> set xs. \<not> P x \<Longrightarrow> runs P xs = 0"
  by (induction P xs rule: runs.induct) auto

lemma runs_skip_prefix: "\<forall>x \<in> set pre. \<not> P x \<Longrightarrow> runs P (pre @ r) = runs P r"
proof (induction pre)
  case Nil
  then show ?case by simp
next
  case (Cons x pre)
  then show ?case by (cases "pre @ r") auto
qed

lemma runs_head_run: "P c \<Longrightarrow> runs P (c # r) = Suc (runs P (dropWhile P r))"
proof (induction r arbitrary: c)
  case Nil
  then show ?case by simp
next
  case (Cons y r)
  then show ?case by (cases "P y") auto
qed

lemma length_split_ws: "length (split_ws s) = Suc (runs is_ws s)"
proof (induction s rule: split_ws.induct)
  case (1 s)
  show ?case
  proof (cases "dropWhile not_ws s")
    case Nil
    then have "\<forall>x \<in> set s. \<not> is_ws x"
      by (auto simp: dropWhile_eq_Nil_conv not_ws_def)
    then have "runs is_ws s = 0" by (rule runs_none)
    moreover have "split_ws s = [s]"
      by (subst split_ws.simps) (simp only: Nil list.case)
    ultimately show ?thesis by simp
  next
    case (Cons c rest)
    have s: "s = takeWhile not_ws s @ c # rest"
      using Cons takeWhile_dropWhile_id [of not_ws s] by simp
    have c: "is_ws c"
      using Cons hd_dropWhile [of not_ws s] by (auto simp: not_ws_def)
    have pre: "\<forall>x \<in> set (takeWhile not_ws s). \<not> is_ws x"
      by (auto dest: set_takeWhileD simp: not_ws_def)
    have "runs is_ws s = runs is_ws (takeWhile not_ws s @ c # rest)"
      using s by simp
    also have "\<dots> = runs is_ws (c # rest)"
      using pre by (rule runs_skip_prefix)
    also have "\<dots> = Suc (runs is_ws (dropWhile is_ws rest))"
      using c by (rule runs_head_run)
    finally have r: "runs is_ws s = Suc (runs is_ws (dropWhile is_ws rest))" .
    have "split_ws s = takeWhile not_ws s # split_ws (dropWhile is_ws rest)"
      by (subst split_ws.simps) (simp only: Cons list.case)
    then have "length (split_ws s) = Suc (length (split_ws (dropWhile is_ws rest)))"
      by simp
    with "1.IH" [OF Cons] r show ?thesis by simp
  qed
qed

lemma runs_complement:
  "s \<noteq> [] \<Longrightarrow>
   Suc (runs P s) =
   runs (\<lambda>x. \<not> P x) s + (if P (hd s) then 1 else 0) + (if P (last s) then 1 else 0)"
proof (induction P s rule: runs.induct)
  case (1 P)
  then show ?case by simp
next
  case (2 P x)
  then show ?case by simp
next
  case (3 P x y r)
  then show ?case by auto
qed

lemma not_ws_eq: "not_ws = (\<lambda>c. \<not> is_ws c)"
  by (rule ext) (simp add: not_ws_def)

section \<open>Helper lemmas on \<open>lastIndexOf\<close>\<close>

lemma occurs_at_bound:
  "occurs_at s t j \<Longrightarrow> length t \<le> length s \<and> j \<le> length s - length t"
  by (auto simp: occurs_at_def)

lemma lastIndexFrom_cases:
  "(lastIndexFrom s t k = - 1 \<and> (\<forall>j\<le>k. \<not> occurs_at s t j)) \<or>
   (\<exists>i\<le>k. lastIndexFrom s t k = int i \<and> occurs_at s t i \<and>
      (\<forall>j. i < j \<and> j \<le> k \<longrightarrow> \<not> occurs_at s t j))"
proof (induction k)
  case 0
  then show ?case by auto
next
  case (Suc k)
  show ?case
  proof (cases "occurs_at s t (Suc k)")
    case True
    then show ?thesis by auto
  next
    case False
    from Suc show ?thesis
    proof
      assume a: "lastIndexFrom s t k = - 1 \<and> (\<forall>j\<le>k. \<not> occurs_at s t j)"
      then have "\<forall>j\<le>Suc k. \<not> occurs_at s t j"
        using False by (auto simp: le_Suc_eq)
      with a False show ?thesis by simp
    next
      assume "\<exists>i\<le>k. lastIndexFrom s t k = int i \<and> occurs_at s t i \<and>
        (\<forall>j. i < j \<and> j \<le> k \<longrightarrow> \<not> occurs_at s t j)"
      then obtain i where i: "i \<le> k" "lastIndexFrom s t k = int i" "occurs_at s t i"
        "\<forall>j. i < j \<and> j \<le> k \<longrightarrow> \<not> occurs_at s t j" by blast
      then have "\<forall>j. i < j \<and> j \<le> Suc k \<longrightarrow> \<not> occurs_at s t j"
        using False by (auto simp: le_Suc_eq)
      with i False show ?thesis by auto
    qed
  qed
qed

text \<open>
  \<open>lastIndexOf\<close> is \<open>-1\<close> when the text occurs nowhere, and otherwise the
  greatest offset at which it occurs.
\<close>

lemma lastIndexOf_cases:
  "(lastIndexOf s t = - 1 \<and> (\<forall>j. \<not> occurs_at s t j)) \<or>
   (\<exists>i. lastIndexOf s t = int i \<and> occurs_at s t i \<and> (\<forall>j>i. \<not> occurs_at s t j))"
proof (cases "length s < length t")
  case True
  then have "\<forall>j. \<not> occurs_at s t j" by (auto simp: occurs_at_def)
  with True show ?thesis by (simp add: lastIndexOf_def)
next
  case False
  then have eq: "lastIndexOf s t = lastIndexFrom s t (length s - length t)"
    by (simp add: lastIndexOf_def)
  from lastIndexFrom_cases [of s t "length s - length t"] show ?thesis
  proof
    assume "lastIndexFrom s t (length s - length t) = - 1 \<and>
      (\<forall>j\<le>length s - length t. \<not> occurs_at s t j)"
    then show ?thesis using eq occurs_at_bound [of s t] by auto
  next
    assume "\<exists>i\<le>length s - length t. lastIndexFrom s t (length s - length t) = int i \<and>
      occurs_at s t i \<and> (\<forall>j. i < j \<and> j \<le> length s - length t \<longrightarrow> \<not> occurs_at s t j)"
    then obtain i where i: "lastIndexFrom s t (length s - length t) = int i" "occurs_at s t i"
      "\<forall>j. i < j \<and> j \<le> length s - length t \<longrightarrow> \<not> occurs_at s t j" by blast
    then have "\<forall>j>i. \<not> occurs_at s t j" using occurs_at_bound [of s t] by blast
    with i eq show ?thesis by auto
  qed
qed

section \<open>Helper lemmas on the eviction loop\<close>

lemma evict_body_children: "st_children (evict_body st) = butlast (st_children st)"
  by (simp add: evict_body_def Let_def)

lemma evict_body_code:
  "st_code (evict_body st) = remove_last (st_code st) (last (st_children st))"
  by (simp add: evict_body_def remove_last_def Let_def)

lemma evict_iter_children:
  "st_children ((evict_body ^^ n) st) = take (length (st_children st) - n) (st_children st)"
proof (induction n)
  case 0
  then show ?case by simp
next
  case (Suc n)
  then show ?case
    by (simp add: evict_body_children butlast_take)
qed

text \<open>
  The loop is some number \<open>n\<close> of rounds, at most one per unit: the condition
  holds before each of them and fails after the last.
\<close>

lemma evict_loop_iter:
  "\<exists>n \<le> length (st_children st).
     evict_loop est m st = (evict_body ^^ n) st \<and>
     \<not> evict_cond est m ((evict_body ^^ n) st) \<and>
     (\<forall>k<n. evict_cond est m ((evict_body ^^ k) st))"
proof (induction est m st rule: evict_loop.induct)
  case (1 est m st)
  show ?case
  proof (cases "evict_cond est m st")
    case False
    then have "evict_loop est m st = st" by (simp add: evict_loop.simps)
    with False show ?thesis by (intro exI [of _ 0]) simp
  next
    case True
    from "1.IH" [OF True] obtain n where n:
      "n \<le> length (st_children (evict_body st))"
      "evict_loop est m (evict_body st) = (evict_body ^^ n) (evict_body st)"
      "\<not> evict_cond est m ((evict_body ^^ n) (evict_body st))"
      "\<forall>k<n. evict_cond est m ((evict_body ^^ k) (evict_body st))"
      by blast
    from True have ne: "st_children st \<noteq> []" by (simp add: evict_cond_def)
    then have pos: "0 < length (st_children st)" by simp
    have "n \<le> length (st_children st) - 1"
      using n(1) by (simp add: evict_body_children)
    with pos have le: "Suc n \<le> length (st_children st)" by arith
    have loop: "evict_loop est m st = (evict_body ^^ Suc n) st"
      using True n(2) by (simp add: evict_loop.simps [of est m st] funpow_swap1)
    have stop: "\<not> evict_cond est m ((evict_body ^^ Suc n) st)"
      using n(3) by (simp add: funpow_swap1)
    have run: "\<forall>k<Suc n. evict_cond est m ((evict_body ^^ k) st)"
    proof (intro allI impI)
      fix k assume "k < Suc n"
      then show "evict_cond est m ((evict_body ^^ k) st)"
        using True n(4) by (cases k) (simp_all add: funpow_swap1)
    qed
    from le loop stop run show ?thesis by blast
  qed
qed

section \<open>Helper lemmas on the normalization\<close>

lemma group_step_blank: "blank l \<Longrightarrow> group_step l (p, d) = (l # p, d)"
  by (simp add: group_step_def)

lemma group_step_text:
  "\<not> blank l \<Longrightarrow> group_step l (p, d) = ([], l # (if length p > 1 then d else p @ d))"
  by (simp add: group_step_def)

text \<open>
  The loop at index \<open>k\<close>, with the lines \<open>pre\<close> still to read, the blank group
  \<open>pend\<close> just below them and the settled lines \<open>dn\<close>, does what the fold over
  \<open>pre\<close> does.
\<close>

lemma norm_loop_foldr:
  "length pre = k \<Longrightarrow>
   first = (if pend = [] then - 1 else int (k + length pend) - 1) \<Longrightarrow>
   norm_loop k (pre @ pend @ dn) first =
     Inr (fst (foldr group_step pre (pend, dn)) @ snd (foldr group_step pre (pend, dn)))"
proof (induction pre arbitrary: k pend dn first rule: rev_induct)
  case Nil
  then show ?case by simp
next
  case (snoc l pre)
  then obtain i where k: "k = Suc i" and i: "length pre = i" by auto
  have nth: "(pre @ [l] @ pend @ dn) ! i = l" using i by (simp add: nth_append)
  have len: "\<not> length ((pre @ [l]) @ pend @ dn) \<le> i" using i by simp
  show ?case
  proof (cases "blank l")
    case True
    have f: "(if first < 0 then int i else first) =
        (if l # pend = [] then - 1 else int (i + length (l # pend)) - 1)"
      using snoc.prems(2) k by auto
    have "norm_loop k ((pre @ [l]) @ pend @ dn) first =
        norm_loop i (pre @ (l # pend) @ dn) (if first < 0 then int i else first)"
      using True nth len k by simp
    also have "\<dots> = Inr (fst (foldr group_step pre (l # pend, dn)) @
        snd (foldr group_step pre (l # pend, dn)))"
      by (rule snoc.IH [OF i f])
    finally show ?thesis using True by (simp add: group_step_blank)
  next
    case False
    let ?d = "l # (if length pend > 1 then dn else pend @ dn)"
    have big: "(first - int i > 1) = (length pend > 1)"
      using snoc.prems(2) k by auto
    have cut: "length pend > 1 \<Longrightarrow>
        take (i + 1) ((pre @ [l]) @ pend @ dn) @ drop (nat (first + 1)) ((pre @ [l]) @ pend @ dn)
        = pre @ [] @ (l # dn)"
      using snoc.prems(2) k i by (auto simp: nat_add_distrib)
    have "norm_loop k ((pre @ [l]) @ pend @ dn) first = norm_loop i (pre @ [] @ ?d) (- 1)"
    proof (cases "length pend > 1")
      case True
      then show ?thesis using False nth len k big cut by simp
    next
      case False
      with \<open>\<not> blank l\<close> nth len k big show ?thesis by simp
    qed
    also have "\<dots> = Inr (fst (foldr group_step pre ([], ?d)) @ snd (foldr group_step pre ([], ?d)))"
      by (rule snoc.IH [OF i]) simp
    finally show ?thesis using False by (simp add: group_step_text)
  qed
qed

lemma norm_loop_norm_lines: "norm_loop (length ls) ls (- 1) = Inr (norm_lines ls)"
  using norm_loop_foldr [of ls "length ls" "- 1" "[]" "[]"]
  by (simp add: norm_lines_def groups_def)

lemma groups_Cons: "groups (l # ls) = group_step l (groups ls)"
  by (simp add: groups_def)

lemma groups_fixed:
  "groups (fst (groups ls) @ snd (groups ls)) = groups ls \<and>
   groups (snd (groups ls)) = ([], snd (groups ls))"
proof (induction ls)
  case Nil
  then show ?case by (simp add: groups_def)
next
  case (Cons l ls)
  obtain p d where pd: "groups ls = (p, d)" by (cases "groups ls")
  from Cons pd have ih1: "groups (p @ d) = (p, d)" and ih2: "groups d = ([], d)" by simp_all
  show ?case
  proof (cases "blank l")
    case True
    then have g: "groups (l # ls) = (l # p, d)" by (simp add: groups_Cons pd group_step_blank)
    have "groups ((l # p) @ d) = (l # p, d)"
      using True ih1 by (simp add: groups_Cons group_step_blank)
    with g ih2 show ?thesis by simp
  next
    case False
    let ?x = "if length p > 1 then d else p @ d"
    have g: "groups (l # ls) = ([], l # ?x)"
      using False by (simp add: groups_Cons pd group_step_text)
    have "groups (l # ?x) = ([], l # ?x)"
      using False ih1 ih2 by (simp add: groups_Cons group_step_text)
    with g show ?thesis by simp
  qed
qed

lemma norm_lines_idem: "norm_lines (norm_lines ls) = norm_lines ls"
  using groups_fixed [of ls] by (simp add: norm_lines_def)

lemma groups_subset: "set (fst (groups ls)) \<union> set (snd (groups ls)) \<subseteq> set ls"
proof (induction ls)
  case Nil
  then show ?case by (simp add: groups_def)
next
  case (Cons l ls)
  then show ?case by (auto simp: groups_Cons group_step_def)
qed

lemma norm_lines_subset: "set (norm_lines ls) \<subseteq> set ls"
  using groups_subset [of ls] by (simp add: norm_lines_def)

lemma norm_lines_nonempty: "ls \<noteq> [] \<Longrightarrow> norm_lines ls \<noteq> []"
  by (cases ls) (auto simp: norm_lines_def groups_Cons group_step_def)

lemma split_on_nonempty: "split_on c s \<noteq> []"
  by (induction s) (auto split: list.splits)

lemma split_on_no_sep: "l \<in> set (split_on c s) \<Longrightarrow> c \<notin> set l"
proof (induction s arbitrary: l)
  case Nil
  then show ?case by simp
next
  case (Cons x s)
  then show ?case by (auto split: if_splits list.splits)
qed

lemma join_split_on: "join c (split_on c s) = s"
proof (induction s)
  case Nil
  then show ?case by simp
next
  case (Cons x s)
  show ?case
  proof (cases "split_on c s")
    case Nil
    then show ?thesis using split_on_nonempty [of c s] by simp
  next
    case (Cons p ps)
    with Cons.IH show ?thesis by (cases ps) auto
  qed
qed

lemma split_on_line: "c \<notin> set l \<Longrightarrow> split_on c l = [l]"
  by (induction l) auto

lemma split_on_append: "c \<notin> set l \<Longrightarrow> split_on c (l @ c # r) = l # split_on c r"
  by (induction l) auto

lemma split_on_join:
  "ls \<noteq> [] \<Longrightarrow> \<forall>l \<in> set ls. c \<notin> set l \<Longrightarrow> split_on c (join c ls) = ls"
proof (induction c ls rule: join.induct)
  case (1 sep)
  then show ?case by simp
next
  case (2 sep l)
  then show ?case by (simp add: split_on_line)
next
  case (3 sep l m ls)
  then show ?case by (simp add: split_on_append)
qed

lemma normalize_eq: "normalize s = Inr (join newline (norm_lines (split_on newline s)))"
  by (simp add: normalize_def Let_def norm_loop_norm_lines)

lemmas ex_defs =
  ex_js_code_def ex_js_f_def ex_js_g_def ex_js_body_def ex_js_class_def ex_js_program_def
  ex_java_code_def ex_java_f_def ex_java_g_def ex_java_body_def ex_java_class_def
  ex_java_program_def
  ex_rust_code_def ex_rust_f_def ex_rust_list_def ex_rust_impl_def ex_rust_file_def
  ex_dense_code_def ex_dense_f_def ex_dense_body_def ex_dense_class_def ex_dense_program_def
  pt_def

section \<open>Helper lemmas on the tokens of a trimmed text\<close>

lemma runs_skip_suffix: "\<forall>x \<in> set t. \<not> P x \<Longrightarrow> runs P (s @ t) = runs P s"
proof (induction P s rule: runs.induct)
  case (1 P)
  then show ?case by (simp add: runs_none)
next
  case (2 P x)
  then show ?case by (cases t) (auto simp: runs_none)
next
  case (3 P x y r)
  then show ?case by simp
qed

lemma runs_split: "\<not> P x \<Longrightarrow> runs P (a @ x # b) = runs P a + runs P b"
proof (induction P a rule: runs.induct)
  case (1 P)
  then show ?case using runs_skip_prefix [of "[x]" P b] by simp
next
  case (2 P y)
  then show ?case using runs_skip_prefix [of "[x]" P b] by simp
next
  case (3 P y z r)
  then show ?case by simp
qed

text \<open>Trimming takes whitespace away at both ends and nothing else.\<close>

lemma trim_decompose:
  "\<exists>a b. s = a @ trim s @ b \<and> (\<forall>x \<in> set a. is_ws x) \<and> (\<forall>x \<in> set b. is_ws x)"
proof -
  let ?u = "dropWhile is_ws s"
  have "rev (takeWhile is_ws (rev ?u) @ dropWhile is_ws (rev ?u)) = ?u"
    by (simp only: takeWhile_dropWhile_id rev_rev_ident)
  then have "rev (dropWhile is_ws (rev ?u)) @ rev (takeWhile is_ws (rev ?u)) = ?u"
    by (simp only: rev_append)
  then have u: "?u = trim s @ rev (takeWhile is_ws (rev ?u))"
    by (simp only: trim_def)
  have "s = takeWhile is_ws s @ ?u" by simp
  with u have "s = takeWhile is_ws s @ trim s @ rev (takeWhile is_ws (rev ?u))" by simp
  moreover have "\<forall>x \<in> set (takeWhile is_ws s). is_ws x" by (auto dest: set_takeWhileD)
  moreover have "\<forall>x \<in> set (rev (takeWhile is_ws (rev ?u))). is_ws x"
    by (auto dest: set_takeWhileD)
  ultimately show ?thesis by blast
qed

lemma runs_trim: "runs not_ws (trim s) = runs not_ws s"
proof -
  from trim_decompose [of s] obtain a b where ab: "s = a @ trim s @ b"
    "\<forall>x \<in> set a. is_ws x" "\<forall>x \<in> set b. is_ws x" by blast
  have "runs not_ws (a @ trim s @ b) = runs not_ws (trim s @ b)"
    using ab(2) by (intro runs_skip_prefix) (simp add: not_ws_def)
  also have "\<dots> = runs not_ws (trim s)"
    using ab(3) by (intro runs_skip_suffix) (simp add: not_ws_def)
  finally show ?thesis using ab(1) by simp
qed

lemma last_dropWhile_eq: "dropWhile P xs \<noteq> [] \<Longrightarrow> last (dropWhile P xs) = last xs"
  by (induction xs) (auto split: if_splits)

lemma trim_ends:
  assumes "trim s \<noteq> []"
  shows "\<not> is_ws (hd (trim s)) \<and> \<not> is_ws (last (trim s))"
proof -
  let ?u = "dropWhile is_ws s" and ?v = "dropWhile is_ws (rev (dropWhile is_ws s))"
  from assms have v: "?v \<noteq> []" by (simp add: trim_def)
  have "?u = [] \<Longrightarrow> ?v = []"
  proof -
    assume a: "?u = []"
    show "?v = []" by (simp only: a rev.simps dropWhile.simps)
  qed
  with v have u: "?u \<noteq> []" by blast
  have "last (trim s) = hd ?v" using v by (simp add: trim_def last_rev)
  moreover have "\<not> is_ws (hd ?v)" using v hd_dropWhile [of is_ws "rev ?u"] by simp
  moreover have "hd (trim s) = last ?v" using v by (simp add: trim_def hd_rev)
  moreover have "last ?v = last (rev ?u)"
    using v by (rule last_dropWhile_eq)
  moreover have "last (rev ?u) = hd ?u" using u by (simp add: last_rev)
  moreover have "\<not> is_ws (hd ?u)" using u hd_dropWhile [of is_ws s] by simp
  ultimately show ?thesis by simp
qed

text \<open>
  On a trimmed text the estimate is the number of maximal runs of non-whitespace
  characters, and 1 when there is none.
\<close>

lemma countTokens_trim: "countTokens (trim s) = max 1 (runs not_ws s)"
proof (cases "trim s = []")
  case True
  then have "runs not_ws s = 0" using runs_trim [of s] by simp
  with True show ?thesis by (simp add: countTokens_def length_split_ws)
next
  case False
  from runs_complement [OF False, of is_ws] trim_ends [OF False]
  have "countTokens (trim s) = runs not_ws (trim s)"
    by (simp add: countTokens_def length_split_ws not_ws_eq)
  moreover have "0 < countTokens (trim s)" by (simp add: countTokens_def length_split_ws)
  ultimately show ?thesis using runs_trim [of s] by simp
qed

lemma runs_join:
  "runs not_ws (join newline ls) = sum_list (map (runs not_ws) ls)"
proof (induction newline ls rule: join.induct)
  case 1
  then show ?case by simp
next
  case (2 l)
  then show ?case by simp
next
  case (3 l m ls)
  have "\<not> not_ws newline" by (simp add: not_ws_def is_ws_def newline_def)
  with runs_split [of not_ws newline l "join newline (m # ls)"] 3 show ?case by simp
qed

lemma blank_runs: "blank l \<Longrightarrow> runs not_ws l = 0"
  using runs_trim [of l] by (simp add: blank_def)

lemma groups_sum:
  assumes "\<And>l. blank l \<Longrightarrow> f l = (0::nat)"
  shows "(\<forall>x \<in> set (fst (groups ls)). blank x) \<and>
     sum_list (map f (fst (groups ls) @ snd (groups ls))) = sum_list (map f ls)"
proof (induction ls)
  case Nil
  then show ?case by (simp add: groups_def)
next
  case (Cons l ls)
  obtain p d where pd: "groups ls = (p, d)" by (cases "groups ls")
  with Cons have ih: "\<forall>x \<in> set p. blank x" "sum_list (map f (p @ d)) = sum_list (map f ls)"
    by simp_all
  from ih(1) assms have zero: "sum_list (map f p) = 0" by (induction p) auto
  show ?case
  proof (cases "blank l")
    case True
    with ih pd show ?thesis by (simp add: groups_Cons group_step_blank)
  next
    case False
    with ih zero pd show ?thesis by (simp add: groups_Cons group_step_text)
  qed
qed

text \<open>The normalization removes blank lines only, so it keeps the estimate of the trimmed text.\<close>

lemma normalize_tokens:
  "normalize s = Inr r \<Longrightarrow> countTokens (trim r) = countTokens (trim s)"
proof -
  assume "normalize s = Inr r"
  then have r: "r = join newline (norm_lines (split_on newline s))"
    by (simp add: normalize_eq)
  have "runs not_ws r = sum_list (map (runs not_ws) (norm_lines (split_on newline s)))"
    by (simp add: r runs_join)
  also have "\<dots> = sum_list (map (runs not_ws) (split_on newline s))"
    using groups_sum [of "runs not_ws" "split_on newline s", OF blank_runs]
    by (simp add: norm_lines_def)
  also have "\<dots> = runs not_ws (join newline (split_on newline s))"
    by (simp add: runs_join)
  finally have "runs not_ws r = runs not_ws s" by (simp add: join_split_on)
  then show ?thesis by (simp add: countTokens_trim)
qed

section \<open>Helper lemmas on the collapsed members\<close>

lemma collapse_child_None:
  "firstChild child cbt = None \<Longrightarrow> collapse_child cbt child acc = acc"
  by (simp add: collapse_child_def)

lemma collapse_child_Some:
  "firstChild child cbt = Some g \<Longrightarrow>
   collapse_child cbt child acc =
     (slice (Some 0) (index (startPosition g)) (fst acc) @ collapsedReplacement g
        @ slice (index (endPosition g)) None (fst acc),
      (slice (index (startPosition child)) (index (startPosition g)) (fst acc)
        @ collapsedReplacement g) # snd acc)"
  by (simp add: collapse_child_def Let_def)

lemma collapse_fold_units:
  "snd (fold (collapse_child cbt) (rev ms) (code, [])) = member_units cbt code ms"
proof (induction ms)
  case Nil
  then show ?case by simp
next
  case (Cons m ms)
  then show ?case
    by (cases "firstChild m cbt") (simp_all add: collapse_child_None collapse_child_Some)
qed

lemma length_member_units:
  "length (member_units cbt code ms) = length (filter (\<lambda>m. firstChild m cbt \<noteq> None) ms)"
  by (induction ms) (auto split: option.splits)

lemma collapse_phase_children:
  "st_children (collapse_phase node code bt ct cbt) =
     member_units cbt (slice (Some 0) (Some (endIndex node)) code)
       (childrenToCollapse node bt ct)"
  by (simp add: collapse_phase_def Let_def collapse_fold_units)

text \<open>The units that \<open>n\<close> rounds pop are the last \<open>n\<close> units, the last one first.\<close>

lemma popped_units:
  "n \<le> length (st_children st) \<Longrightarrow>
   map (\<lambda>k. last (st_children ((evict_body ^^ k) st))) [0..<n] = take n (rev (st_children st))"
proof (induction n)
  case 0
  then show ?case by simp
next
  case (Suc n)
  let ?us = "st_children st"
  from Suc.prems have n: "n < length ?us" by simp
  then have ne: "take (length ?us - n) ?us \<noteq> []" by (auto simp: take_eq_Nil)
  have "last (take (length ?us - n) ?us) = ?us ! (length ?us - n - 1)"
    using n ne by (cases "n = 0") (auto simp: last_conv_nth min_def)
  also have "\<dots> = rev ?us ! n"
    using n by (simp add: rev_nth)
  finally have l: "last (st_children ((evict_body ^^ n) st)) = rev ?us ! n"
    by (simp add: evict_iter_children)
  have "take (Suc n) (rev ?us) = take n (rev ?us) @ [rev ?us ! n]"
    using n by (simp add: take_Suc_conv_app_nth)
  with Suc l show ?case by simp
qed

lemma popped_unit_nth:
  assumes "k < length (st_children st)"
  shows "last (st_children ((evict_body ^^ k) st)) = rev (st_children st) ! k"
proof -
  from assms have "Suc k \<le> length (st_children st)" by simp
  then have "map (\<lambda>k. last (st_children ((evict_body ^^ k) st))) [0..<Suc k] =
      take (Suc k) (rev (st_children st))"
    by (rule popped_units)
  then have "map (\<lambda>k. last (st_children ((evict_body ^^ k) st))) [0..<Suc k] ! k =
      take (Suc k) (rev (st_children st)) ! k"
    by (rule arg_cong)
  then show ?thesis by (simp add: nth_append)
qed

section \<open>Helper lemmas on the enrichment\<close>

lemma processNode_eq:
  "processNode ctx node code filePath =
     (let dc = extractNodeDetails (ctx\<lparr>currentFile := filePath\<rparr>) node code
      in (fst dc, updateGlobalContext (snd dc) (fst dc) node))"
  by (cases node) (simp add: Let_def updateGlobalContext_def)

lemma map_of_spread:
  "distinct (map fst b) \<Longrightarrow> map_of (spread a b) = map_of a ++ map_of b"
proof -
  have "\<And>a. distinct (map fst b) \<Longrightarrow>
      map_of (fold (\<lambda>kv. AList.update (fst kv) (snd kv)) b a) = map_of a ++ map_of b"
  proof (induction b)
    case Nil
    then show ?case by simp
  next
    case (Cons kv b)
    from Cons.prems have "map_of b (fst kv) = None"
      by (simp add: map_of_eq_None_iff)
    with Cons show ?case
      by (cases kv) (auto simp: update_conv' map_add_def fun_eq_iff split: option.splits)
  qed
  then show "distinct (map fst b) \<Longrightarrow> map_of (spread a b) = map_of a ++ map_of b"
    by (simp add: spread_def)
qed

lemma details_keys: "distinct (map fst (fst (extractNodeDetails ctx node code)))"
  by (simp add: extractNodeDetails_def Let_def assign_def distinct_update field_def
      split: jsval.splits)

lemma details_content:
  "map_of (fst (extractNodeDetails ctx node code)) ''content'' = Some (Str (ntext node))"
  by (simp add: extractNodeDetails_def Let_def assign_def update_conv' field_def
      split: jsval.splits)

text \<open>
  The details are spread into the chunk after \<open>content\<close>, and they have a
  \<open>content\<close> of their own: whatever chunk a node yields, verbatim or collapsed,
  its \<open>content\<close> is the text of the node.
\<close>

lemma yielded_content:
  "c \<in> set (chunks (fst (node_chunk (\<lambda>g. extractNodeDetails g node code') ctx ancestors node
      code m root))) \<Longrightarrow> field c ''content'' = Str (ntext node)"
  by (auto simp: node_chunk_def Let_def field_def map_of_spread details_keys details_content
      map_add_def split: option.splits sum.splits if_splits)

section \<open>Helper lemmas on the two generators\<close>

lemma details_independent:
  "fst (extractNodeDetails c1 node code1) = fst (extractNodeDetails c2 node code2)"
  by (simp add: extractNodeDetails_def Let_def)

lemma processNode_details:
  "fst (processNode c1 node code filePath) = fst (extractNodeDetails c2 node code2)"
proof (cases node)
  case (Node t x sp ep ei f cs)
  then show ?thesis
    using details_independent [of "c1\<lparr>currentFile := filePath\<rparr>" node code c2 code2]
    by (simp add: Let_def)
qed

lemma node_chunk_agree:
  assumes "\<And>c c'. fst (e1 c) = fst (e2 c')"
  shows "chunks (fst (node_chunk e1 c1 anc node code m root)) =
           chunks (fst (node_chunk e2 c2 anc node code m root)) \<and>
         thrown (fst (node_chunk e1 c1 anc node code m root)) =
           thrown (fst (node_chunk e2 c2 anc node code m root)) \<and>
         snd (node_chunk e1 c1 anc node code m root) =
           snd (node_chunk e2 c2 anc node code m root)"
  using assms [of c1 c2]
  by (simp add: node_chunk_def Let_def split: option.splits sum.splits)

lemma generators_agree:
  "(\<forall>c2. chunks (getSmartCollapsedChunks_391 c1 anc node code m fp root) =
           chunks (getSmartCollapsedChunks c2 anc node code m root) \<and>
         thrown (getSmartCollapsedChunks_391 c1 anc node code m fp root) =
           thrown (getSmartCollapsedChunks c2 anc node code m root))"
  "(\<forall>c2. chunks (chunks_of_children_391 c1 anc cs code m fp) =
           chunks (chunks_of_children c2 anc cs code m) \<and>
         thrown (chunks_of_children_391 c1 anc cs code m fp) =
           thrown (chunks_of_children c2 anc cs code m))"
proof (induction c1 anc node code m fp root and c1 anc cs code m fp
    rule: getSmartCollapsedChunks_391_chunks_of_children_391.induct)
  case (1 ctx ancestors t x sp ep ei f cs code maxChunkSize filePath root)
  let ?node = "Node t x sp ep ei f cs"
  let ?e1 = "\<lambda>c. processNode c ?node (Str code) filePath"
  let ?e2 = "\<lambda>c. extractNodeDetails c ?node (Str code)"
  have e: "\<And>c c'. fst (?e1 c) = fst (?e2 c')"
    by (rule processNode_details)
  show ?case
  proof
    fix c2
    let ?o1 = "node_chunk ?e1 ctx ancestors ?node code maxChunkSize root"
    let ?o2 = "node_chunk ?e2 c2 ancestors ?node code maxChunkSize root"
    from node_chunk_agree [of ?e1 ?e2 ctx ancestors ?node code maxChunkSize root c2, OF e]
    have own: "chunks (fst ?o1) = chunks (fst ?o2)" "thrown (fst ?o1) = thrown (fst ?o2)"
      "snd ?o1 = snd ?o2" by simp_all
    show "chunks (getSmartCollapsedChunks_391 ctx ancestors ?node code maxChunkSize filePath root) =
           chunks (getSmartCollapsedChunks c2 ancestors ?node code maxChunkSize root) \<and>
         thrown (getSmartCollapsedChunks_391 ctx ancestors ?node code maxChunkSize filePath root) =
           thrown (getSmartCollapsedChunks c2 ancestors ?node code maxChunkSize root)"
    proof (cases "snd ?o1")
      case True
      with own show ?thesis by (simp add: Let_def)
    next
      case False
      from "1.IH" [OF refl refl False]
      have "chunks (chunks_of_children_391 (ctx_after (fst ?o1)) (?node # ancestors) cs code
                maxChunkSize filePath) =
            chunks (chunks_of_children (ctx_after (fst ?o2)) (?node # ancestors) cs code
                maxChunkSize) \<and>
            thrown (chunks_of_children_391 (ctx_after (fst ?o1)) (?node # ancestors) cs code
                maxChunkSize filePath) =
            thrown (chunks_of_children (ctx_after (fst ?o2)) (?node # ancestors) cs code
                maxChunkSize)"
        by blast
      with False own show ?thesis by (simp add: Let_def)
    qed
  qed
next
  case (2 ctx ancestors code maxChunkSize filePath)
  then show ?case by simp
next
  case (3 ctx ancestors child cs code maxChunkSize filePath)
  show ?case
  proof
    fix c2
    let ?f1 = "getSmartCollapsedChunks_391 ctx ancestors child code maxChunkSize filePath False"
    let ?f2 = "getSmartCollapsedChunks c2 ancestors child code maxChunkSize False"
    from "3.IH"(1) have first: "chunks ?f1 = chunks ?f2" "thrown ?f1 = thrown ?f2" by simp_all
    show "chunks (chunks_of_children_391 ctx ancestors (child # cs) code maxChunkSize filePath) =
           chunks (chunks_of_children c2 ancestors (child # cs) code maxChunkSize) \<and>
         thrown (chunks_of_children_391 ctx ancestors (child # cs) code maxChunkSize filePath) =
           thrown (chunks_of_children c2 ancestors (child # cs) code maxChunkSize)"
    proof (cases "thrown ?f1 = None")
      case False
      with first show ?thesis by (simp add: Let_def)
    next
      case True
      from "3.IH"(2) [OF refl] True
      have "chunks (chunks_of_children_391 (ctx_after ?f1) ancestors cs code maxChunkSize filePath) =
            chunks (chunks_of_children (ctx_after ?f2) ancestors cs code maxChunkSize) \<and>
            thrown (chunks_of_children_391 (ctx_after ?f1) ancestors cs code maxChunkSize filePath) =
            thrown (chunks_of_children (ctx_after ?f2) ancestors cs code maxChunkSize)"
        by simp
      with True first show ?thesis by (simp add: Let_def)
    qed
  qed
qed

section \<open>The token estimate (C6)\<close>

text \<open>
  C6, as the code has it. \<open>countTokens\<close> is one more than the number of maximal
  whitespace runs of the text. In terms of the maximal runs of non-whitespace
  characters: the empty text gives 1, and any other text gives the number of
  those runs, plus one when the text starts with whitespace, plus one when it
  ends with whitespace. So the estimate is the number of non-whitespace runs
  exactly for a text that is not empty and neither starts nor ends with
  whitespace.
\<close>

theorem countTokens_runs:
  "countTokens t = Suc (runs is_ws t) \<and>
   countTokens t =
     (if t = [] then 1
      else runs not_ws t + (if is_ws (hd t) then 1 else 0) + (if is_ws (last t) then 1 else 0))"
proof (cases "t = []")
  case True
  then show ?thesis by (simp add: countTokens_def length_split_ws)
next
  case False
  from runs_complement [OF False, of is_ws] show ?thesis
    using False by (simp add: countTokens_def length_split_ws not_ws_eq)
qed

text \<open>
  C6 as stated fails: the text of a space and the letter a has one run of
  non-whitespace characters, and the estimate is 2.
\<close>

theorem countTokens_leading_space:
  "countTokens (js '' a'') = 2 \<and> runs not_ws (js '' a'') = 1"
  by (simp add: countTokens_def js_def is_ws_def not_ws_def split_ws.simps)

section \<open>The placeholder (C3)\<close>

text \<open>
  C3, as the code has it. The placeholder of a body is \<open>{ ... }\<close> exactly when
  the category of the body is \<open>statement_block\<close> or \<open>compound_statement\<close>, and
  \<open>...\<close> exactly when it is neither; the category \<open>block\<close>, which the collapser
  also accepts as a function body, gets \<open>...\<close>.
\<close>

theorem collapsedReplacement_placeholder:
  "(collapsedReplacement bodyNode = js ''{ ... }'') =
     (ntype bodyNode = ''statement_block'' \<or> ntype bodyNode = ''compound_statement'') \<and>
   (collapsedReplacement bodyNode = js ''...'') =
     (ntype bodyNode \<noteq> ''statement_block'' \<and> ntype bodyNode \<noteq> ''compound_statement'')"
  by (simp add: collapsedReplacement_def js_def)

text \<open>
  C3 as stated fails: the body of the Java method \<open>f\<close> is a \<open>block\<close>, one of the
  block types the collapser accepts as a function body, it is delimited by
  braces, and its placeholder is \<open>...\<close>.
\<close>

theorem collapsedReplacement_block:
  "ntype (last (children ex_java_f)) \<in> set FUNCTION_BLOCK_NODE_TYPES \<and>
   ntext (last (children ex_java_f)) = js ''{ a(); b(); }'' \<and>
   collapsedReplacement (last (children ex_java_f)) = js ''...'' \<and>
   funcText ex_java_f ex_java_code = Inr (ex_java_code @ js ''...'')"
  by (simp add: ex_defs FUNCTION_BLOCK_NODE_TYPES_def collapsedReplacement_def funcText_def
      slice_def index_def js_def)

section \<open>Idempotent normalization (C7)\<close>

text \<open>
  C7. The whitespace normalization of lines 123 to 141 never throws, and applying
  it to its own result gives that result again.
\<close>

theorem normalize_idempotent:
  "\<exists>r. normalize s = Inr r \<and> normalize r = Inr r"
proof -
  let ?ls = "norm_lines (split_on newline s)"
  have ne: "?ls \<noteq> []" by (rule norm_lines_nonempty) (rule split_on_nonempty)
  have "\<forall>l \<in> set ?ls. newline \<notin> set l"
    using norm_lines_subset [of "split_on newline s"] split_on_no_sep [of _ newline s] by blast
  with ne have "split_on newline (join newline ?ls) = ?ls" by (rule split_on_join)
  then have "normalize (join newline ?ls) = Inr (join newline ?ls)"
    by (simp add: normalize_eq norm_lines_idem)
  then show ?thesis by (simp add: normalize_eq)
qed

section \<open>Termination of the eviction loop (C8)\<close>

text \<open>
  C8. For every estimator \<open>est\<close>, monotone or not, and every budget, the eviction
  loop of a container is a number \<open>n\<close> of rounds that is at most the number of
  collapsed members: the loop condition holds before each of the \<open>n\<close> rounds and
  fails after the last, whatever the estimate then is. The loop is a total
  function; its termination is proved with the number of remaining units.
\<close>

theorem eviction_loop_bounded:
  "\<exists>n \<le> length (childrenToCollapse node bt ct).
     evict_loop est m (collapse_phase node code bt ct cbt) =
       (evict_body ^^ n) (collapse_phase node code bt ct cbt) \<and>
     \<not> evict_cond est m (evict_loop est m (collapse_phase node code bt ct cbt)) \<and>
     (\<forall>k<n. evict_cond est m ((evict_body ^^ k) (collapse_phase node code bt ct cbt)))"
proof -
  let ?st = "collapse_phase node code bt ct cbt"
  from evict_loop_iter [of ?st est m] obtain n where n:
    "n \<le> length (st_children ?st)"
    "evict_loop est m ?st = (evict_body ^^ n) ?st"
    "\<not> evict_cond est m ((evict_body ^^ n) ?st)"
    "\<forall>k<n. evict_cond est m ((evict_body ^^ k) ?st)" by blast
  have "length (st_children ?st) \<le> length (childrenToCollapse node bt ct)"
    by (simp add: collapse_phase_children length_member_units)
  with n show ?thesis by (intro exI [of _ n]) simp
qed

text \<open>
  The JavaScript class under an estimator that grows as the text shrinks, with
  budget 8: the loop never gets under the budget, runs its two rounds and stops
  with every unit evicted and an estimate of 875.
\<close>

theorem eviction_loop_bounded_witness:
  "(\<exists>n \<le> 2.
      evict_loop est_rising 8 (class_phase ex_js_class ex_js_code) =
        (evict_body ^^ n) (class_phase ex_js_class ex_js_code) \<and>
      \<not> evict_cond est_rising 8 (evict_loop est_rising 8 (class_phase ex_js_class ex_js_code)) \<and>
      (\<forall>k<n. evict_cond est_rising 8 ((evict_body ^^ k) (class_phase ex_js_class ex_js_code)))) \<and>
   evict_loop est_rising 8 (class_phase ex_js_class ex_js_code) =
     \<lparr>st_code = ex_js_code @ js ''{ ... }'' @ ex_js_code @ js ''{ ... }'' @ ex_js_code,
      st_children = [], st_removed = True\<rparr> \<and>
   est_rising (trim (ex_js_code @ js ''{ ... }'' @ ex_js_code @ js ''{ ... }'' @ ex_js_code)) =
     875"
proof -
  have over: "est_rising
      (trim (ex_js_code @ js ''{ ... }'' @ ex_js_code @ js ''{ ... }'' @ ex_js_code)) = 875"
    by code_simp
  have members: "length (childrenToCollapse ex_js_class
      (Many [''block'', ''class_body'', ''declaration_list'']) FUNCTION_DECLARATION_NODE_TYPES) = 2"
    by (simp add: childrenToCollapse_def firstChild_def ex_defs
        FUNCTION_DECLARATION_NODE_TYPES_def)
  have result: "evict_loop est_rising 8 (class_phase ex_js_class ex_js_code) =
      \<lparr>st_code = ex_js_code @ js ''{ ... }'' @ ex_js_code @ js ''{ ... }'' @ ex_js_code,
       st_children = [], st_removed = True\<rparr>"
    by code_simp
  show ?thesis
    using eviction_loop_bounded [where node = ex_js_class and code = ex_js_code
        and bt = "Many [''block'', ''class_body'', ''declaration_list'']"
        and ct = FUNCTION_DECLARATION_NODE_TYPES and cbt = "Many FUNCTION_BLOCK_NODE_TYPES"
        and est = est_rising and m = 8]
      members result over
    by (simp add: class_phase_def)
qed

section \<open>One round of the eviction loop (C10)\<close>

text \<open>
  C10. A round of the eviction loop always drops the last unit from the list. It
  changes the working text only if the greatest offset at which that unit occurs
  in the text is strictly positive; when the unit occurs at no positive offset
  (it is absent, or its last occurrence is at offset 0) the text stays as it is.
\<close>

theorem evict_body_text:
  "st_children (evict_body st) = butlast (st_children st) \<and>
   st_removed (evict_body st) \<and>
   (st_code (evict_body st) \<noteq> st_code st \<longrightarrow>
      (\<exists>i>0. lastIndexOf (st_code st) (last (st_children st)) = int i \<and>
         occurs_at (st_code st) (last (st_children st)) i \<and>
         (\<forall>j>i. \<not> occurs_at (st_code st) (last (st_children st)) j))) \<and>
   ((\<forall>j>0. \<not> occurs_at (st_code st) (last (st_children st)) j) \<longrightarrow>
      st_code (evict_body st) = st_code st)"
proof -
  let ?s = "st_code st" and ?t = "last (st_children st)"
  have code: "st_code (evict_body st) =
      (if lastIndexOf ?s ?t > 0
       then take (nat (lastIndexOf ?s ?t)) ?s @ drop (nat (lastIndexOf ?s ?t) + length ?t) ?s
       else ?s)"
    by (simp add: evict_body_def Let_def)
  have rest: "st_children (evict_body st) = butlast (st_children st) \<and> st_removed (evict_body st)"
    by (simp add: evict_body_def Let_def)
  from lastIndexOf_cases [of ?s ?t] show ?thesis
  proof
    assume "lastIndexOf ?s ?t = - 1 \<and> (\<forall>j. \<not> occurs_at ?s ?t j)"
    with code rest show ?thesis by simp
  next
    assume "\<exists>i. lastIndexOf ?s ?t = int i \<and> occurs_at ?s ?t i \<and> (\<forall>j>i. \<not> occurs_at ?s ?t j)"
    then obtain i where i: "lastIndexOf ?s ?t = int i" "occurs_at ?s ?t i"
      "\<forall>j>i. \<not> occurs_at ?s ?t j" by blast
    show ?thesis
    proof (cases "i = 0")
      case True
      with code rest i show ?thesis by simp
    next
      case False
      then have "0 < i" by simp
      with i have "\<exists>i>0. lastIndexOf ?s ?t = int i \<and> occurs_at ?s ?t i \<and>
          (\<forall>j>i. \<not> occurs_at ?s ?t j)" by blast
      moreover have "\<not> (\<forall>j>0. \<not> occurs_at ?s ?t j)" using \<open>0 < i\<close> i(2) by blast
      ultimately show ?thesis using rest by blast
    qed
  qed
qed

text \<open>
  A working text that starts with its only unit, with budget 3: the round leaves
  the text as it is and drops the unit, so the loop ends with no unit left and
  the text not shortened.
\<close>

theorem evict_body_text_witness:
  "st_code (evict_body ex_unit_at_start) = js ''f() { ... } // end'' \<and>
   st_children (evict_body ex_unit_at_start) = [] \<and>
   evict_cond token_estimate 3 ex_unit_at_start \<and>
   evict_loop token_estimate 3 ex_unit_at_start =
     \<lparr>st_code = js ''f() { ... } // end'', st_children = [], st_removed = True\<rparr>"
proof -
  have none: "\<forall>j>0. \<not> occurs_at (st_code ex_unit_at_start)
      (last (st_children ex_unit_at_start)) j"
  proof -
    have "lastIndexOf (st_code ex_unit_at_start) (last (st_children ex_unit_at_start)) = 0"
      by code_simp
    with lastIndexOf_cases [of "st_code ex_unit_at_start" "last (st_children ex_unit_at_start)"]
    show ?thesis by auto
  qed
  have cond: "evict_cond token_estimate 3 ex_unit_at_start" by code_simp
  have loop: "evict_loop token_estimate 3 ex_unit_at_start =
      \<lparr>st_code = js ''f() { ... } // end'', st_children = [], st_removed = True\<rparr>"
    by code_simp
  from evict_body_text [of ex_unit_at_start] none
  have "st_code (evict_body ex_unit_at_start) = st_code ex_unit_at_start"
    and "st_children (evict_body ex_unit_at_start) = butlast (st_children ex_unit_at_start)"
    by blast+
  with cond loop show ?thesis by (simp add: ex_unit_at_start_def)
qed

section \<open>Eviction order (C2)\<close>

text \<open>
  C2, as the code has it. The evictable units of a container are one for each
  collapsible member that has a body block, in source order; a member without a
  body block has no unit. A run of the eviction loop is a number \<open>n\<close> of rounds,
  at most the number of units, the loop condition (estimate of the trimmed text
  above the budget, and a unit left) holding before each round and failing after
  the last. The rounds pop the last \<open>n\<close> units, the last one first, and the first
  units stay. Each round edits the working text with the unit it pops as lines
  116 to 119 do (\<open>remove_last\<close>): it cuts the last occurrence of that unit out of
  the text when that occurrence is at a strictly positive offset, and leaves the
  text as it is otherwise.
\<close>

theorem eviction_order:
  "st_children (collapse_phase node code bt ct cbt) =
     member_units cbt (slice (Some 0) (Some (endIndex node)) code)
       (childrenToCollapse node bt ct) \<and>
   length (st_children (collapse_phase node code bt ct cbt)) =
     length (filter (\<lambda>child. firstChild child cbt \<noteq> None) (childrenToCollapse node bt ct)) \<and>
   (\<exists>n \<le> length (st_children (collapse_phase node code bt ct cbt)).
      evict_loop est m (collapse_phase node code bt ct cbt) =
        (evict_body ^^ n) (collapse_phase node code bt ct cbt) \<and>
      (\<forall>k<n. evict_cond est m ((evict_body ^^ k) (collapse_phase node code bt ct cbt))) \<and>
      \<not> evict_cond est m ((evict_body ^^ n) (collapse_phase node code bt ct cbt)) \<and>
      map (\<lambda>k. last (st_children ((evict_body ^^ k) (collapse_phase node code bt ct cbt))))
        [0..<n] =
        take n (rev (st_children (collapse_phase node code bt ct cbt))) \<and>
      (\<forall>k<n. st_code ((evict_body ^^ Suc k) (collapse_phase node code bt ct cbt)) =
         remove_last (st_code ((evict_body ^^ k) (collapse_phase node code bt ct cbt)))
           (rev (st_children (collapse_phase node code bt ct cbt)) ! k)) \<and>
      st_children (evict_loop est m (collapse_phase node code bt ct cbt)) =
        take (length (st_children (collapse_phase node code bt ct cbt)) - n)
          (st_children (collapse_phase node code bt ct cbt)))"
proof -
  let ?st = "collapse_phase node code bt ct cbt"
  from evict_loop_iter [of ?st est m] obtain n where n:
    "n \<le> length (st_children ?st)"
    "evict_loop est m ?st = (evict_body ^^ n) ?st"
    "\<not> evict_cond est m ((evict_body ^^ n) ?st)"
    "\<forall>k<n. evict_cond est m ((evict_body ^^ k) ?st)" by blast
  have popped: "map (\<lambda>k. last (st_children ((evict_body ^^ k) ?st))) [0..<n] =
      take n (rev (st_children ?st))"
    using n(1) by (rule popped_units)
  have edits: "\<forall>k<n. st_code ((evict_body ^^ Suc k) ?st) =
      remove_last (st_code ((evict_body ^^ k) ?st)) (rev (st_children ?st) ! k)"
  proof (intro allI impI)
    fix k assume "k < n"
    with n(1) have "k < length (st_children ?st)" by simp
    then have "last (st_children ((evict_body ^^ k) ?st)) = rev (st_children ?st) ! k"
      by (rule popped_unit_nth)
    then show "st_code ((evict_body ^^ Suc k) ?st) =
        remove_last (st_code ((evict_body ^^ k) ?st)) (rev (st_children ?st) ! k)"
      by (simp add: evict_body_code)
  qed
  have left: "st_children (evict_loop est m ?st) =
      take (length (st_children ?st) - n) (st_children ?st)"
    using n(2) by (simp add: evict_iter_children)
  have units: "st_children ?st =
      member_units cbt (slice (Some 0) (Some (endIndex node)) code)
        (childrenToCollapse node bt ct)"
    by (rule collapse_phase_children)
  have count: "length (st_children ?st) =
      length (filter (\<lambda>child. firstChild child cbt \<noteq> None) (childrenToCollapse node bt ct))"
    by (simp add: collapse_phase_children length_member_units)
  from n popped edits left have "\<exists>n \<le> length (st_children ?st).
      evict_loop est m ?st = (evict_body ^^ n) ?st \<and>
      (\<forall>k<n. evict_cond est m ((evict_body ^^ k) ?st)) \<and>
      \<not> evict_cond est m ((evict_body ^^ n) ?st) \<and>
      map (\<lambda>k. last (st_children ((evict_body ^^ k) ?st))) [0..<n] =
        take n (rev (st_children ?st)) \<and>
      (\<forall>k<n. st_code ((evict_body ^^ Suc k) ?st) =
         remove_last (st_code ((evict_body ^^ k) ?st)) (rev (st_children ?st) ! k)) \<and>
      st_children (evict_loop est m ?st) =
        take (length (st_children ?st) - n) (st_children ?st)"
    by blast
  with units count show ?thesis by blast
qed

text \<open>
  The JavaScript class with budget 8. The units are those of \<open>f\<close> and \<open>g\<close>; the
  loop runs two rounds, which pop the unit of \<open>g\<close> and then the unit of \<open>f\<close>. The
  first round cuts the last occurrence of the unit of \<open>g\<close> out of the text; the
  unit of \<open>f\<close> occurs at offset 0 only, and the second round leaves the text as
  it is.
\<close>

theorem eviction_order_witness:
  "st_children (class_phase ex_js_class ex_js_code) =
     [ex_js_code @ js ''{ ... }'' @ ex_js_code @ js ''{ ... }'', ex_js_code @ js ''{ ... }''] \<and>
   (\<exists>n \<le> 2.
      evict_loop token_estimate 8 (class_phase ex_js_class ex_js_code) =
        (evict_body ^^ n) (class_phase ex_js_class ex_js_code) \<and>
      (\<forall>k<n. evict_cond token_estimate 8
         ((evict_body ^^ k) (class_phase ex_js_class ex_js_code))) \<and>
      map (\<lambda>k. last (st_children ((evict_body ^^ k) (class_phase ex_js_class ex_js_code))))
        [0..<n] =
        take n [ex_js_code @ js ''{ ... }'',
                ex_js_code @ js ''{ ... }'' @ ex_js_code @ js ''{ ... }''] \<and>
      (\<forall>k<n. st_code ((evict_body ^^ Suc k) (class_phase ex_js_class ex_js_code)) =
         remove_last (st_code ((evict_body ^^ k) (class_phase ex_js_class ex_js_code)))
           ([ex_js_code @ js ''{ ... }'',
             ex_js_code @ js ''{ ... }'' @ ex_js_code @ js ''{ ... }''] ! k))) \<and>
   evict_loop token_estimate 8 (class_phase ex_js_class ex_js_code) =
     \<lparr>st_code = ex_js_code @ js ''{ ... }'' @ ex_js_code @ js ''{ ... }'' @ ex_js_code,
      st_children = [], st_removed = True\<rparr>"
proof -
  have units: "st_children (class_phase ex_js_class ex_js_code) =
      [ex_js_code @ js ''{ ... }'' @ ex_js_code @ js ''{ ... }'', ex_js_code @ js ''{ ... }'']"
    by code_simp
  have result: "evict_loop token_estimate 8 (class_phase ex_js_class ex_js_code) =
      \<lparr>st_code = ex_js_code @ js ''{ ... }'' @ ex_js_code @ js ''{ ... }'' @ ex_js_code,
       st_children = [], st_removed = True\<rparr>"
    by code_simp
  from eviction_order [where node = ex_js_class and code = ex_js_code
      and bt = "Many [''block'', ''class_body'', ''declaration_list'']"
      and ct = FUNCTION_DECLARATION_NODE_TYPES and cbt = "Many FUNCTION_BLOCK_NODE_TYPES"
      and est = token_estimate and m = 8]
  obtain n where n: "n \<le> length (st_children (class_phase ex_js_class ex_js_code))"
    "evict_loop token_estimate 8 (class_phase ex_js_class ex_js_code) =
       (evict_body ^^ n) (class_phase ex_js_class ex_js_code)"
    "\<forall>k<n. evict_cond token_estimate 8 ((evict_body ^^ k) (class_phase ex_js_class ex_js_code))"
    "map (\<lambda>k. last (st_children ((evict_body ^^ k) (class_phase ex_js_class ex_js_code))))
       [0..<n] = take n (rev (st_children (class_phase ex_js_class ex_js_code)))"
    "\<forall>k<n. st_code ((evict_body ^^ Suc k) (class_phase ex_js_class ex_js_code)) =
       remove_last (st_code ((evict_body ^^ k) (class_phase ex_js_class ex_js_code)))
         (rev (st_children (class_phase ex_js_class ex_js_code)) ! k)"
    unfolding class_phase_def by blast
  have rv: "rev (st_children (class_phase ex_js_class ex_js_code)) =
      [ex_js_code @ js ''{ ... }'',
       ex_js_code @ js ''{ ... }'' @ ex_js_code @ js ''{ ... }'']"
    by (simp add: units)
  from n(1) units have "n \<le> 2" by simp
  with n(2,3) n(4,5) [unfolded rv] result show ?thesis
    unfolding units by blast
qed

text \<open>
  C2 as stated fails on the Java class: its collapsible members are \<open>f\<close> and,
  after it, the abstract method \<open>g\<close>, which has no body block, and there is one
  unit. Budget 10 forces exactly one eviction; its round pops that unit, finds it
  at offset 0 and removes no text at all, so the text of the last member \<open>g\<close> is
  not removed.
\<close>

theorem eviction_removes_no_member:
  "childrenToCollapse ex_java_class (Many [''block'', ''class_body'', ''declaration_list''])
     FUNCTION_DECLARATION_NODE_TYPES = [ex_java_f, ex_java_g] \<and>
   class_phase ex_java_class ex_java_code =
     \<lparr>st_code = ex_java_code @ js ''...'' @ ex_java_code,
      st_children = [ex_java_code @ js ''...''], st_removed = False\<rparr> \<and>
   evict_cond token_estimate 10 (class_phase ex_java_class ex_java_code) \<and>
   evict_loop token_estimate 10 (class_phase ex_java_class ex_java_code) =
     evict_body (class_phase ex_java_class ex_java_code) \<and>
   lastIndexOf (ex_java_code @ js ''...'' @ ex_java_code) (ex_java_code @ js ''...'') = 0 \<and>
   evict_loop token_estimate 10 (class_phase ex_java_class ex_java_code) =
     \<lparr>st_code = ex_java_code @ js ''...'' @ ex_java_code,
      st_children = [], st_removed = True\<rparr>"
  by code_simp

section \<open>Fit or exhausted units (C1)\<close>

text \<open>
  C1, as the code has it. \<open>collapseChildren\<close> never throws, and for the rendering
  it returns, either the token estimate of the trimmed rendering is at most the
  budget, or the eviction loop stopped with no unit left. (A function-like node
  has no units and no eviction loop.)
\<close>

theorem collapse_fit_or_exhausted:
  "\<exists>r. collapseChildren node code bt ct cbt m = Inr r \<and>
     (token_estimate (trim r) \<le> m \<or>
      st_children (evict_loop token_estimate m (collapse_phase node code bt ct cbt)) = [])"
proof -
  let ?st = "evict_loop token_estimate m (collapse_phase node code bt ct cbt)"
  from evict_loop_iter [of "collapse_phase node code bt ct cbt" token_estimate m]
  have "\<not> evict_cond token_estimate m ?st" by auto
  then have exit: "token_estimate (trim (st_code ?st)) \<le> m \<or> st_children ?st = []"
    by (auto simp: evict_cond_def)
  show ?thesis
  proof (cases "st_removed ?st")
    case False
    then have "collapseChildren node code bt ct cbt m = Inr (st_code ?st)"
      by (simp add: collapseChildren_def Let_def)
    with exit show ?thesis by blast
  next
    case True
    let ?r = "join newline (norm_lines (split_on newline (st_code ?st)))"
    have n: "normalize (st_code ?st) = Inr ?r" by (rule normalize_eq)
    with True have "collapseChildren node code bt ct cbt m = Inr ?r"
      by (simp add: collapseChildren_def Let_def)
    moreover have "token_estimate (trim ?r) = token_estimate (trim (st_code ?st))"
      using normalize_tokens [OF n] by (simp add: token_estimate_def)
    ultimately show ?thesis using exit by auto
  qed
qed

text \<open>
  C1 as stated fails on the Java class written without whitespace, with budget
  1. The text of the class is one token, which is not below the budget, so the
  class is not yielded verbatim. The collapsed rendering is one token too, which
  is not above the budget, so the loop does not run and the unit of \<open>f\<close> is left.
  The chunk yielded for the class has the text of the class as content, with
  estimate 1.
\<close>

theorem collapse_stops_at_budget:
  "maybeYieldChunk ex_dense_class ex_dense_code 1 False = None \<and>
   map (\<lambda>c. field c ''content'')
     (chunks (getSmartCollapsedChunks globalContext [] ex_dense_program ex_dense_code 1 True)) =
     [Str ex_dense_code, Str (js ''void/**/f(){}'')] \<and>
   countTokens ex_dense_code = 1 \<and>
   constructClassDefinitionChunk ex_dense_class ex_dense_code 1 =
     Inr (ex_dense_code @ js ''...'' @ ex_dense_code) \<and>
   countTokens (ex_dense_code @ js ''...'' @ ex_dense_code) = 1 \<and>
   st_children (evict_loop token_estimate 1 (class_phase ex_dense_class ex_dense_code)) =
     [ex_dense_code @ js ''...'']"
  by code_simp

section \<open>The scaffold of a nested function (C4)\<close>

text \<open>
  C4, as the code has it. The rendering of a function-like node depends on its
  parent and its grandparent only, never on an ancestor beyond them. When the
  parent is a \<open>block\<close> or a \<open>declaration_list\<close> and the grandparent a
  \<open>class_definition\<close> or an \<open>impl_item\<close>, the rendering is the slice of lines 181
  to 183, then \<open>...\<close> and two line breaks, then as many spaces as the column of
  the node, then the rendering the node has by itself (\<open>funcText\<close>). In every
  other case (other categories of parent or grandparent, among them a
  \<open>class_body\<close> in a \<open>class_declaration\<close>, or fewer than two ancestors) the
  rendering is \<open>funcText\<close> alone.
\<close>

theorem function_chunk_scaffold:
  "constructFunctionDefinitionChunk ancestors node code m =
     constructFunctionDefinitionChunk (take 2 ancestors) node code m \<and>
   (funcText node code = Inr ft \<and>
    ntype parent \<in> {''block'', ''declaration_list''} \<and>
    ntype classNode \<in> {''class_definition'', ''impl_item''} \<longrightarrow>
      constructFunctionDefinitionChunk (parent # classNode # upper) node code m =
        Inr (slice (index (startPosition classNode)) (index (startPosition parent)) code
             @ js ''...'' @ [newline, newline]
             @ replicate (column (startPosition node)) 0x20 @ ft)) \<and>
   (funcText node code = Inr ft \<and>
    \<not> (ntype parent \<in> {''block'', ''declaration_list''} \<and>
       ntype classNode \<in> {''class_definition'', ''impl_item''}) \<longrightarrow>
      constructFunctionDefinitionChunk (parent # classNode # upper) node code m = Inr ft) \<and>
   (funcText node code = Inr ft \<and> length ancestors < 2 \<longrightarrow>
      constructFunctionDefinitionChunk ancestors node code m = Inr ft)"
proof -
  have two: "constructFunctionDefinitionChunk ancestors node code m =
      constructFunctionDefinitionChunk (take 2 ancestors) node code m"
  proof (cases ancestors)
    case Nil
    then show ?thesis by simp
  next
    case (Cons p rest)
    then show ?thesis
      by (cases rest)
        (simp_all add: constructFunctionDefinitionChunk_def numeral_2_eq_2 split: sum.splits)
  qed
  have short: "funcText node code = Inr ft \<and> length ancestors < 2 \<longrightarrow>
      constructFunctionDefinitionChunk ancestors node code m = Inr ft"
  proof (cases ancestors)
    case Nil
    then show ?thesis by (simp add: constructFunctionDefinitionChunk_def)
  next
    case (Cons p rest)
    then show ?thesis
      by (cases rest) (simp_all add: constructFunctionDefinitionChunk_def)
  qed
  from two short show ?thesis
    by (simp add: constructFunctionDefinitionChunk_def)
qed

text \<open>
  The Rust function \<open>f\<close> in the declaration list of the implementation block: the
  ellipsis line and the four spaces of the column of \<open>f\<close> stand between the slice
  and \<open>funcText\<close>, which both hold the whole source. The Java method in its
  class body and a node without ancestors get \<open>funcText\<close> only.
\<close>

theorem function_chunk_scaffold_witness:
  "constructFunctionDefinitionChunk [ex_rust_list, ex_rust_impl, ex_rust_file]
     ex_rust_f ex_rust_code 3 =
     Inr (ex_rust_code @ js ''...'' @ [newline, newline] @ js ''    ''
          @ ex_rust_code @ js ''...'') \<and>
   constructFunctionDefinitionChunk [ex_java_body, ex_java_class, ex_java_program]
     ex_java_f ex_java_code 3 = Inr (ex_java_code @ js ''...'') \<and>
   constructFunctionDefinitionChunk [] ex_rust_f ex_rust_code 3 =
     Inr (ex_rust_code @ js ''...'')"
proof -
  have ft: "funcText ex_rust_f ex_rust_code = Inr (ex_rust_code @ js ''...'')"
    by code_simp
  have jt: "funcText ex_java_f ex_java_code = Inr (ex_java_code @ js ''...'')"
    by code_simp
  have p: "ntype ex_rust_list \<in> {''block'', ''declaration_list''}"
    by (simp add: ex_defs)
  have g: "ntype ex_rust_impl \<in> {''class_definition'', ''impl_item''}"
    by (simp add: ex_defs)
  have q: "\<not> (ntype ex_java_body \<in> {''block'', ''declaration_list''} \<and>
      ntype ex_java_class \<in> {''class_definition'', ''impl_item''})"
    by (simp add: ex_defs)
  have scaffold: "slice (index (startPosition ex_rust_impl)) (index (startPosition ex_rust_list))
      ex_rust_code @ js ''...'' @ [newline, newline]
      @ replicate (column (startPosition ex_rust_f)) 0x20 @ ex_rust_code @ js ''...'' =
      ex_rust_code @ js ''...'' @ [newline, newline] @ js ''    ''
      @ ex_rust_code @ js ''...''"
    by code_simp
  from function_chunk_scaffold [of "[ex_rust_list, ex_rust_impl, ex_rust_file]" ex_rust_f
      ex_rust_code 3 "ex_rust_code @ js ''...''" ex_rust_list ex_rust_impl "[ex_rust_file]"]
    ft p g
  have "constructFunctionDefinitionChunk [ex_rust_list, ex_rust_impl, ex_rust_file]
      ex_rust_f ex_rust_code 3 =
      Inr (slice (index (startPosition ex_rust_impl)) (index (startPosition ex_rust_list))
             ex_rust_code @ js ''...'' @ [newline, newline]
           @ replicate (column (startPosition ex_rust_f)) 0x20 @ ex_rust_code @ js ''...'')"
    by blast
  then have a: "constructFunctionDefinitionChunk [ex_rust_list, ex_rust_impl, ex_rust_file]
      ex_rust_f ex_rust_code 3 =
      Inr (ex_rust_code @ js ''...'' @ [newline, newline] @ js ''    ''
           @ ex_rust_code @ js ''...'')"
    by (simp only: scaffold)
  from function_chunk_scaffold [of "[ex_java_body, ex_java_class, ex_java_program]" ex_java_f
      ex_java_code 3 "ex_java_code @ js ''...''" ex_java_body ex_java_class "[ex_java_program]"]
    jt q
  have b: "constructFunctionDefinitionChunk [ex_java_body, ex_java_class, ex_java_program]
      ex_java_f ex_java_code 3 = Inr (ex_java_code @ js ''...'')"
    by blast
  from function_chunk_scaffold [of "[]" ex_rust_f ex_rust_code 3 "ex_rust_code @ js ''...''"] ft
  have c: "constructFunctionDefinitionChunk [] ex_rust_f ex_rust_code 3 =
      Inr (ex_rust_code @ js ''...'')"
    by simp
  from a b c show ?thesis by blast
qed

text \<open>
  C4 as stated fails on the Java class: \<open>class_declaration\<close> is a container (it
  has a constructor of collapsed chunks), \<open>class_body\<close> is its body block, the
  method \<open>f\<close> is a direct member of that block, and the rendering of \<open>f\<close> is
  \<open>funcText\<close> alone: it has no ellipsis line, and no line break at all.
\<close>

theorem function_chunk_without_scaffold:
  "map_of collapsedNodeConstructors (ntype ex_java_class) = Some ClassDefinitionChunk \<and>
   firstChild ex_java_class (Many [''block'', ''class_body'', ''declaration_list'']) =
     Some ex_java_body \<and>
   ex_java_f \<in> set (children ex_java_body) \<and>
   map_of collapsedNodeConstructors (ntype ex_java_f) = Some FunctionDefinitionChunk \<and>
   constructFunctionDefinitionChunk [ex_java_body, ex_java_class, ex_java_program]
     ex_java_f ex_java_code 3 = funcText ex_java_f ex_java_code \<and>
   funcText ex_java_f ex_java_code = Inr (ex_java_code @ js ''...'') \<and>
   newline \<notin> set (ex_java_code @ js ''...'')"
  by code_simp

section \<open>A function-like node without a body (C5)\<close>

text \<open>
  C5, as the code has it. Collapsing a function-like node never looks for a body:
  when the node has children, the last child stands for the body whatever its
  category, the rendering is the slice of line 170 followed by the placeholder
  of that child, and no error is raised. Only a node without any child fails,
  with the \<open>TypeError\<close> of the host language, which names neither the span nor the
  category of the node.
\<close>

theorem function_chunk_last_child:
  "(children node \<noteq> [] \<longrightarrow>
      funcText node code =
        Inr (slice (index (startPosition node))
               (index (startPosition (last (children node)))) code
             @ collapsedReplacement (last (children node))) \<and>
      (\<exists>r. constructFunctionDefinitionChunk ancestors node code m = Inr r)) \<and>
   (children node = [] \<longrightarrow>
      constructFunctionDefinitionChunk ancestors node code m = Inl TypeError)"
proof (cases "children node = []")
  case True
  then show ?thesis by (simp add: constructFunctionDefinitionChunk_def funcText_def)
next
  case False
  then have ft: "funcText node code =
      Inr (slice (index (startPosition node))
             (index (startPosition (last (children node)))) code
           @ collapsedReplacement (last (children node)))"
    by (simp add: funcText_def Let_def)
  then have "\<exists>r. constructFunctionDefinitionChunk ancestors node code m = Inr r"
    by (simp add: constructFunctionDefinitionChunk_def split: list.splits)
  with ft False show ?thesis by simp
qed

text \<open>
  The abstract Java method \<open>g\<close>, whose last child is the semicolon, and a function
  declaration without children.
\<close>

theorem function_chunk_last_child_witness:
  "funcText ex_java_g ex_java_code = Inr (ex_java_code @ js ''...'') \<and>
   (\<exists>r. constructFunctionDefinitionChunk [ex_java_body, ex_java_class, ex_java_program]
      ex_java_g ex_java_code 3 = Inr r) \<and>
   constructFunctionDefinitionChunk [] ex_leaf_function (js ''f'') 3 = Inl TypeError"
proof -
  have kids: "children ex_java_g \<noteq> []" by (simp add: ex_defs)
  have none: "children ex_leaf_function = []" by (simp add: ex_leaf_function_def)
  have cut: "slice (index (startPosition ex_java_g))
      (index (startPosition (last (children ex_java_g)))) ex_java_code
      @ collapsedReplacement (last (children ex_java_g)) = ex_java_code @ js ''...''"
    by code_simp
  from function_chunk_last_child [of ex_java_g ex_java_code
      "[ex_java_body, ex_java_class, ex_java_program]" 3] kids cut
  have a: "funcText ex_java_g ex_java_code = Inr (ex_java_code @ js ''...'')"
    and b: "\<exists>r. constructFunctionDefinitionChunk [ex_java_body, ex_java_class, ex_java_program]
      ex_java_g ex_java_code 3 = Inr r"
    by (simp_all only: simp_thms)
  from function_chunk_last_child [of ex_leaf_function "js ''f''" "[]" 3] none
  have c: "constructFunctionDefinitionChunk [] ex_leaf_function (js ''f'') 3 = Inl TypeError"
    by simp
  from a b c show ?thesis by blast
qed

text \<open>
  C5 as stated fails on the abstract Java method \<open>g\<close>: it has no body block, its
  last child is the semicolon, and collapsing it raises no error but returns a
  text that ends with the placeholder of the semicolon.
\<close>

theorem function_chunk_from_non_body:
  "firstChild ex_java_g (Many FUNCTION_BLOCK_NODE_TYPES) = None \<and>
   ntype (last (children ex_java_g)) = '';'' \<and>
   constructFunctionDefinitionChunk [ex_java_body, ex_java_class, ex_java_program]
     ex_java_g ex_java_code 3 = Inr (ex_java_code @ js ''...'')"
  by code_simp

section \<open>The two definitions of the generator (C9)\<close>

text \<open>
  C9. For every node, chain of ancestors, source text, budget, file path and
  \<open>root\<close> flag, and for any two global contexts, the definition of line 391
  and the definition of line 436 yield the same chunks in the same order, so in
  particular the same \<open>content\<close>, \<open>startLine\<close> and \<open>endLine\<close>, and they end with
  the same exception or with none. They differ in the global context they leave.
\<close>

theorem chunk_generators_agree:
  "chunks (getSmartCollapsedChunks_391 ctx1 ancestors node code m filePath root) =
     chunks (getSmartCollapsedChunks ctx2 ancestors node code m root) \<and>
   map (\<lambda>c. (field c ''content'', field c ''startLine'', field c ''endLine''))
     (chunks (getSmartCollapsedChunks_391 ctx1 ancestors node code m filePath root)) =
   map (\<lambda>c. (field c ''content'', field c ''startLine'', field c ''endLine''))
     (chunks (getSmartCollapsedChunks ctx2 ancestors node code m root)) \<and>
   thrown (getSmartCollapsedChunks_391 ctx1 ancestors node code m filePath root) =
     thrown (getSmartCollapsedChunks ctx2 ancestors node code m root)"
  using generators_agree(1) [of ctx1 ancestors node code m filePath root]
  by simp

end
